theory Spec2Isabelle
  imports Complex_Main "HOL-Library.Word"
begin

section \<open>JavaScript values shared by the routes and pages\<close>

text \<open>
  A JavaScript string is a sequence of UTF-16 code units; \<open>length\<close>, \<open>substring\<close>,
  \<open>split\<close> and \<open>startsWith\<close> all count and compare code units.  An ASCII literal of
  the source is written \<open>js ''...''\<close>.
\<close>

type_synonym code_unit = "16 word"

type_synonym jsstring = "code_unit list"

definition js :: "string \<Rightarrow> jsstring" where
  "js s = map of_char s"

definition startsWith :: "jsstring \<Rightarrow> jsstring \<Rightarrow> bool" where
  "startsWith s p = (take (length p) s = p)"

text \<open>
  \<open>s.split(c)\<close> for a separator of one code unit: the pieces between the occurrences
  of \<open>c\<close>, always at least one piece.  \<open>xs.join(sep)\<close> puts \<open>sep\<close> between the elements.
\<close>

fun split_on :: "code_unit \<Rightarrow> jsstring \<Rightarrow> jsstring list" where
  "split_on c [] = [[]]"
| "split_on c (x # xs) =
     (if x = c then [] # split_on c xs
      else (case split_on c xs of [] \<Rightarrow> [[x]] | y # ys \<Rightarrow> (x # y) # ys))"

fun join :: "jsstring \<Rightarrow> jsstring list \<Rightarrow> jsstring" where
  "join sep [] = []"
| "join sep [x] = x"
| "join sep (x # y # ys) = x @ sep @ join sep (y # ys)"

text \<open>
  A value as \<open>JSON.parse\<close> and property reads produce it.  A number is modelled at
  its integer values.  An object is the list of its own properties, looked up by key.
\<close>

datatype jsval =
    JUndefined
  | JNull
  | JBool bool
  | JNum int
  | JStr jsstring
  | JArr "jsval list"
  | JObj "(jsstring \<times> jsval) list"

text \<open>
  Results are \<open>option\<close>s: \<open>None\<close> is a thrown exception (every route and handler
  below catches whatever is thrown in one place).

  \<open>v.k\<close>: reading a property of \<open>undefined\<close> or \<open>null\<close> throws a TypeError; an object
  gives its own property or \<open>undefined\<close>; the keys read below name no built-in property
  of a string, number, boolean or array, so those give \<open>undefined\<close>.
\<close>

definition get_prop :: "jsval \<Rightarrow> jsstring \<Rightarrow> jsval option" where
  "get_prop v k =
     (case v of
        JUndefined \<Rightarrow> None
      | JNull \<Rightarrow> None
      | JObj kvs \<Rightarrow> Some (case map_of kvs k of None \<Rightarrow> JUndefined | Some x \<Rightarrow> x)
      | _ \<Rightarrow> Some JUndefined)"

definition truthy :: "jsval \<Rightarrow> bool" where
  "truthy v =
     (case v of
        JUndefined \<Rightarrow> False
      | JNull \<Rightarrow> False
      | JBool b \<Rightarrow> b
      | JNum n \<Rightarrow> n \<noteq> 0
      | JStr s \<Rightarrow> s \<noteq> []
      | _ \<Rightarrow> True)"

text \<open>
  A value inside a template literal \<open>`${v}`\<close>.  A string stands for itself;
  \<open>undefined\<close>, \<open>null\<close> and booleans have fixed texts; the conversion of a number, an
  array or an object is ECMAScript's \<open>ToString\<close>, taken as the parameter \<open>tostr\<close>
  (it can throw).
\<close>

definition template :: "(jsval \<Rightarrow> jsstring option) \<Rightarrow> jsval \<Rightarrow> jsstring option" where
  "template tostr v =
     (case v of
        JStr s \<Rightarrow> Some s
      | JUndefined \<Rightarrow> Some (js ''undefined'')
      | JNull \<Rightarrow> Some (js ''null'')
      | JBool b \<Rightarrow> Some (if b then js ''true'' else js ''false'')
      | _ \<Rightarrow> tostr v)"

text \<open>
  What \<open>await fetch(...)\<close> gives: \<open>None\<close> when the promise rejects, else the
  response's status and its body as \<open>response.json()\<close> reads it (\<open>None\<close> when the body
  is not JSON, so that \<open>response.json()\<close> throws).
\<close>

record fetch_response =
  resp_status :: nat
  resp_json :: "jsval option"

definition ok :: "fetch_response \<Rightarrow> bool" where
  "ok r = (200 \<le> resp_status r \<and> resp_status r \<le> 299)"


section \<open>The graph status strings\<close>

text \<open>
  Modelled from the spec: the statuses of the Graph Orchestrator's state machine
  (section 4.6).  The orchestrator is backend code that is not among the source files;
  the pages only read the strings it writes.  \<open>topics_found\<close> carries the planned
  topics.
\<close>

datatype graph_status =
    Started
  | TopicsFound "jsstring list"
  | SearchResultsFound
  | ArticlesGenerated
  | Done
  | Failed

text \<open>
  Modelled from the spec: the status string written for each state; the topic list
  of \<open>topics_found\<close> follows a colon, pipe-delimited (\<open>topics_found:A|B|C\<close>).
\<close>

fun status_string :: "graph_status \<Rightarrow> jsstring" where
  "status_string Started = js ''started''"
| "status_string (TopicsFound ts) = js ''topics_found:'' @ join (js ''|'') ts"
| "status_string SearchResultsFound = js ''search_results_found''"
| "status_string ArticlesGenerated = js ''articles_generated''"
| "status_string Done = js ''done''"
| "status_string Failed = js ''failed''"

text \<open>
  Modelled from the spec: the position of a state along
  \<open>started \<rightarrow> topics_found \<rightarrow> search_results_found \<rightarrow> articles_generated \<rightarrow> done\<close>,
  with the terminal \<open>failed\<close> after every state it can follow.
\<close>

fun stage :: "graph_status \<Rightarrow> nat" where
  "stage Started = 0"
| "stage (TopicsFound ts) = 1"
| "stage SearchResultsFound = 2"
| "stage ArticlesGenerated = 3"
| "stage Done = 4"
| "stage Failed = 5"

text \<open>Modelled from the spec: \<open>done\<close> and \<open>failed\<close> are the terminal states.\<close>

fun terminal :: "graph_status \<Rightarrow> bool" where
  "terminal Done = True"
| "terminal Failed = True"
| "terminal s = False"

text \<open>
  Modelled from the spec: the transitions 1 to 5 of section 4.6.  Each stage is
  followed by the next one or by \<open>failed\<close>; nothing leaves \<open>done\<close> or \<open>failed\<close>.
\<close>

fun transition :: "graph_status \<Rightarrow> graph_status \<Rightarrow> bool" where
  "transition Started t = (case t of TopicsFound ts \<Rightarrow> True | Failed \<Rightarrow> True | _ \<Rightarrow> False)"
| "transition (TopicsFound ts) t = (t = SearchResultsFound \<or> t = Failed)"
| "transition SearchResultsFound t = (t = ArticlesGenerated \<or> t = Failed)"
| "transition ArticlesGenerated t = (t = Done \<or> t = Failed)"
| "transition Done t = False"
| "transition Failed t = False"

text \<open>
  A sequence of statuses in which each one follows the one before by a transition of
  the state machine.
\<close>

fun follows :: "graph_status list \<Rightarrow> bool" where
  "follows [] = True"
| "follows [s] = True"
| "follows (s # t # ws) = (transition s t \<and> follows (t # ws))"


section \<open>The Graph Orchestrator\<close>

text \<open>
  Modelled from the spec: the orchestrator is backend code that is not among the
  source files, so it is modelled from sections 4.5, 4.6 and 5.  It drives one graph:
  it keeps the graph's current status and the state of each topic's pipeline, and
  every transition it makes is written to the Status/Result Store, which keeps the
  statuses in the order written.
\<close>

datatype pipeline = Pending | Retrieved | Synthesized | Skipped

text \<open>
  Modelled from the spec: the orchestrator's record of one graph, with the statuses
  written to the store so far, oldest first.
\<close>

record orchestrator =
  current :: graph_status
  pipelines :: "pipeline list"
  written :: "graph_status list"

text \<open>
  Modelled from the spec: what the orchestrator is told while it runs.  The planner
  answers or fails; the retrieval and the synthesis of the topic at a position
  complete or fail after their retries; the Relationship Extractor settles, with or
  without edges; an error that is fatal to the graph occurs.  The tasks run
  concurrently, so these arrive in any order, and a slow task can report after the
  graph has moved on.
\<close>

datatype event =
    PlannerSucceeded "jsstring list"
  | PlannerFailed
  | RetrievalCompleted nat
  | RetrievalFailed nat
  | SynthesisCompleted nat
  | SynthesisFailed nat
  | ExtractionSettled
  | FatalError

text \<open>
  Modelled from the spec: the graph row is created in \<open>started\<close>, synchronously
  (section 3).
\<close>

definition created :: orchestrator where
  "created = \<lparr>current = Started, pipelines = [], written = [Started]\<rparr>"

text \<open>
  Modelled from the spec: \<open>setStatus\<close> of section 4.5, with the orchestrator's own
  record of where the graph is.
\<close>

definition setStatus :: "graph_status \<Rightarrow> orchestrator \<Rightarrow> orchestrator" where
  "setStatus s orch = orch\<lparr>current := s, written := written orch @ [s]\<rparr>"

text \<open>Modelled from the spec: the pipeline of the topic at a position moves on.\<close>

definition mark :: "nat \<Rightarrow> pipeline \<Rightarrow> orchestrator \<Rightarrow> orchestrator" where
  "mark i p orch = orch\<lparr>pipelines := (pipelines orch)[i := p]\<rparr>"

text \<open>
  Modelled from the spec: all topics have failed; and all topics have settled, each
  synthesized or skipped.
\<close>

definition all_skipped :: "pipeline list \<Rightarrow> bool" where
  "all_skipped ps = list_all (\<lambda>p. p = Skipped) ps"

definition all_settled :: "pipeline list \<Rightarrow> bool" where
  "all_settled ps = list_all (\<lambda>p. p = Synthesized \<or> p = Skipped) ps"

text \<open>
  Modelled from the spec: a topic whose retrieval or synthesis failed is skipped; if
  all topics fail the graph fails (transition 2).
\<close>

definition skip :: "nat \<Rightarrow> orchestrator \<Rightarrow> orchestrator" where
  "skip i orch =
     (let orch1 = mark i Skipped orch
      in if all_skipped (pipelines orch1) then setStatus Failed orch1 else orch1)"

text \<open>
  Modelled from the spec: once synthesis has completed for all topics that are not
  skipped, the status becomes \<open>articles_generated\<close> (transition 3).
\<close>

definition articles_when_settled :: "orchestrator \<Rightarrow> orchestrator" where
  "articles_when_settled orch =
     (if current orch = SearchResultsFound \<and> all_settled (pipelines orch)
      then setStatus ArticlesGenerated orch else orch)"

text \<open>
  Modelled from the spec: the transitions 1 to 5 of section 4.6, each taken from the
  state it is listed under.  In \<open>started\<close> the planner's answer gives \<open>topics_found\<close>
  (no topics, no graph: \<open>failed\<close>).  In \<open>topics_found\<close> the first retrieval that
  completes gives \<open>search_results_found\<close>.  In \<open>search_results_found\<close> a later
  retrieval only updates its pipeline, and the last synthesis to settle gives
  \<open>articles_generated\<close>.  In \<open>articles_generated\<close> the extractor's settling gives
  \<open>done\<close>, whatever it found.  \<open>failed\<close> is reached from any state that is not
  terminal.  What a task reports after its stage has passed writes nothing, and
  nothing happens in \<open>done\<close> or \<open>failed\<close>.
\<close>

definition step :: "orchestrator \<Rightarrow> event \<Rightarrow> orchestrator" where
  "step orch ev =
     (case current orch of
        Started \<Rightarrow>
          (case ev of
             PlannerSucceeded ts \<Rightarrow>
               if ts = [] then setStatus Failed orch
               else setStatus (TopicsFound ts)
                      (orch\<lparr>pipelines := replicate (length ts) Pending\<rparr>)
           | PlannerFailed \<Rightarrow> setStatus Failed orch
           | FatalError \<Rightarrow> setStatus Failed orch
           | _ \<Rightarrow> orch)
      | TopicsFound ts \<Rightarrow>
          (case ev of
             RetrievalCompleted i \<Rightarrow> setStatus SearchResultsFound (mark i Retrieved orch)
           | RetrievalFailed i \<Rightarrow> skip i orch
           | SynthesisFailed i \<Rightarrow> skip i orch
           | FatalError \<Rightarrow> setStatus Failed orch
           | _ \<Rightarrow> orch)
      | SearchResultsFound \<Rightarrow>
          (case ev of
             RetrievalCompleted i \<Rightarrow> mark i Retrieved orch
           | RetrievalFailed i \<Rightarrow> articles_when_settled (skip i orch)
           | SynthesisCompleted i \<Rightarrow> articles_when_settled (mark i Synthesized orch)
           | SynthesisFailed i \<Rightarrow> articles_when_settled (skip i orch)
           | FatalError \<Rightarrow> setStatus Failed orch
           | _ \<Rightarrow> orch)
      | ArticlesGenerated \<Rightarrow>
          (case ev of
             ExtractionSettled \<Rightarrow> setStatus Done orch
           | FatalError \<Rightarrow> setStatus Failed orch
           | _ \<Rightarrow> orch)
      | Done \<Rightarrow> orch
      | Failed \<Rightarrow> orch)"

text \<open>Modelled from the spec: a run of the orchestrator on what it is told, in order.\<close>

definition run :: "event list \<Rightarrow> orchestrator \<Rightarrow> orchestrator" where
  "run evs orch = foldl step orch evs"

text \<open>
  What holds of every state the orchestrator reaches: the store holds at least the
  first write \<open>started\<close>, its last write is the current status, and each write follows
  the one before by a transition.
\<close>

definition consistent :: "orchestrator \<Rightarrow> bool" where
  "consistent orch \<longleftrightarrow>
     written orch \<noteq> [] \<and> hd (written orch) = Started \<and> last (written orch) = current orch
       \<and> follows (written orch)"

text \<open>
  A run of two topics in which the second topic's retrieval reports only after the
  graph is done, and the first topic's synthesis reports twice.
\<close>

definition late_events :: "event list" where
  "late_events =
     [PlannerSucceeded [js ''Qubits'', js ''Gates''], RetrievalCompleted 0,
      SynthesisFailed 1, SynthesisCompleted 0, SynthesisCompleted 0, ExtractionSettled,
      RetrievalCompleted 1, PlannerFailed]"


section \<open>The loading page (ui/src/app/(sidebar)/loading/[slug]/page.tsx)\<close>

text \<open>
  The state of the page: the three React states it renders (stage, title, topics),
  and what its effect does besides: the \<open>router.push\<close> calls in order, the console,
  and the period of the running \<open>setInterval\<close> (\<open>None\<close> when there is none).
  \<open>error_shown\<close> says that a render has thrown, so that the framework's error screen
  stands in place of the page.
\<close>

datatype console_entry =
    Log jsval
  | LogTopics "jsstring list"
  | ErrorPolling

record page =
  currentStage :: nat
  graphTitle :: jsval
  topics :: "jsstring list"
  pushed :: "jsstring list"
  console :: "console_entry list"
  interval :: "nat option"
  error_shown :: bool

definition initial_page :: page where
  "initial_page =
     \<lparr>currentStage = 0, graphTitle = JStr (js ''Creating Knowledge Graph...''), topics = [],
      pushed = [], console = [], interval = None, error_shown = False\<rparr>"

text \<open>
  The page renders the title as a child, \<open><Heading>{graphTitle}</Heading>\<close>.  A
  string or a number is shown; \<open>undefined\<close>, \<open>null\<close> and booleans show nothing; an
  array shows its elements; an object is no valid React child.
\<close>

fun renderable :: "jsval \<Rightarrow> bool" where
  "renderable (JObj kvs) = False"
| "renderable (JArr xs) = list_all renderable xs"
| "renderable v = True"

text \<open>
  The render that follows the state updates of a poll.  When the title cannot be
  rendered the render throws: the page is unmounted, the cleanup of its effect clears
  the interval, and the error screen is shown.
\<close>

definition render :: "page \<Rightarrow> page" where
  "render st =
     (if renderable (graphTitle st) then st
      else st\<lparr>interval := None, error_shown := True\<rparr>)"

text \<open>The \<open>catch\<close> of \<open>pollStatus\<close>: the error goes to the console only.\<close>

definition catch_poll :: "page \<Rightarrow> page" where
  "catch_poll st = st\<lparr>console := console st @ [ErrorPolling]\<rparr>"

text \<open>\<open>status.split(':')[1].split('|')\<close>; \<open>None\<close> when there is no second piece.\<close>

definition topicList :: "jsstring \<Rightarrow> jsstring list option" where
  "topicList status =
     (case split_on 0x3A status of
        first # second # rest \<Rightarrow> Some (split_on 0x7C second)
      | _ \<Rightarrow> None)"

text \<open>
  The branches of \<open>pollStatus\<close> on a status that is a string other than \<open>done\<close>.
\<close>

definition on_status :: "jsstring \<Rightarrow> jsstring \<Rightarrow> page \<Rightarrow> page" where
  "on_status slug status st =
     (if startsWith status (js ''topics_found:'') then
        (case topicList status of
           None \<Rightarrow> catch_poll (st\<lparr>currentStage := 1 + 1\<rparr>)
         | Some ts \<Rightarrow>
             st\<lparr>currentStage := 1 + 1, console := console st @ [LogTopics ts], topics := ts\<rparr>)
      else if status = js ''search_results_found'' then st\<lparr>currentStage := 2 + 1\<rparr>
      else if status = js ''articles_generated'' then st\<lparr>currentStage := 3 + 1\<rparr>
      else if status = js ''done'' then st\<lparr>pushed := pushed st @ [js ''/graph/'' @ slug]\<rparr>
      else st)"

text \<open>\<open>title || 'Creating Knowledge Graph...'\<close>\<close>

definition title_or_default :: "jsval \<Rightarrow> jsval" where
  "title_or_default title =
     (if truthy title then title else JStr (js ''Creating Knowledge Graph...''))"

text \<open>
  One run of \<open>pollStatus\<close> on the outcome of its fetch of \<open>/api/graph-status\<close>, and
  the render of the states it has set.  \<open>slug\<close> is \<open>params.slug\<close>.  Data that is
  \<open>null\<close> is logged and then throws when its status is read, before any state is set.
  A status that is not a string has no \<open>startsWith\<close>, so the call throws, after the
  title has been set.
\<close>

definition pollStatus :: "jsstring \<Rightarrow> fetch_response option \<Rightarrow> page \<Rightarrow> page" where
  "pollStatus slug outcome st =
     (case outcome of
        None \<Rightarrow> catch_poll st
      | Some response \<Rightarrow>
          if \<not> ok response then catch_poll st
          else
            (case resp_json response of
               None \<Rightarrow> catch_poll st
             | Some data \<Rightarrow>
                 (case (get_prop data (js ''status''), get_prop data (js ''title'')) of
                    (Some status, Some title) \<Rightarrow>
                      (let st1 = st\<lparr>console := console st @ [Log data],
                                   graphTitle := title_or_default title\<rparr>
                       in render
                            (if status = JStr (js ''done'')
                             then st1\<lparr>pushed := pushed st1 @ [js ''/graph/'' @ slug]\<rparr>
                             else (case status of
                                     JStr s \<Rightarrow> on_status slug s st1
                                   | _ \<Rightarrow> catch_poll st1)))
                  | _ \<Rightarrow> catch_poll (st\<lparr>console := console st @ [Log data]\<rparr>))))"

text \<open>
  The effect of the page: without a token it pushes \<open>/login\<close>; with one it starts
  \<open>setInterval(pollStatus, 2000)\<close>.  Each tick of a running interval runs \<open>pollStatus\<close>;
  the cleanup of the effect clears the interval.
\<close>

definition mount :: "jsval \<Rightarrow> page \<Rightarrow> page" where
  "mount token st =
     (if \<not> truthy token then st\<lparr>pushed := pushed st @ [js ''/login'']\<rparr>
      else st\<lparr>interval := Some 2000\<rparr>)"

definition tick :: "jsstring \<Rightarrow> page \<Rightarrow> fetch_response option \<Rightarrow> page" where
  "tick slug st outcome = (if interval st = None then st else pollStatus slug outcome st)"

definition unmount :: "page \<Rightarrow> page" where
  "unmount st = st\<lparr>interval := None\<rparr>"

definition ticks :: "jsstring \<Rightarrow> fetch_response option list \<Rightarrow> page \<Rightarrow> page" where
  "ticks slug outcomes st = foldl (tick slug) st outcomes"

text \<open>
  What a poll reads, when it gets as far as reading it: the status, and the title
  that it sets.
\<close>

definition polled_status :: "fetch_response option \<Rightarrow> jsval option" where
  "polled_status outcome =
     (case outcome of
        None \<Rightarrow> None
      | Some response \<Rightarrow>
          if \<not> ok response then None
          else
            (case resp_json response of
               None \<Rightarrow> None
             | Some data \<Rightarrow> get_prop data (js ''status'')))"

definition polled_title :: "fetch_response option \<Rightarrow> jsval option" where
  "polled_title outcome =
     (case outcome of
        None \<Rightarrow> None
      | Some response \<Rightarrow>
          if \<not> ok response then None
          else
            (case resp_json response of
               None \<Rightarrow> None
             | Some data \<Rightarrow> map_option title_or_default (get_prop data (js ''title''))))"

text \<open>
  A poll keeps the page going when it does not read \<open>done\<close> and the title it sets, if
  it sets one, can be rendered.
\<close>

definition keeps_going :: "fetch_response option \<Rightarrow> bool" where
  "keeps_going outcome =
     (polled_status outcome \<noteq> Some (JStr (js ''done''))
      \<and> (case polled_title outcome of None \<Rightarrow> True | Some t \<Rightarrow> renderable t))"

text \<open>
  Three polls of a graph that has not finished: one reads \<open>failed\<close>, one \<open>started\<close>,
  and one \<open>started\<close> with a title that is an object.
\<close>

definition failed_poll :: "fetch_response option" where
  "failed_poll = Some \<lparr>resp_status = 200,
       resp_json = Some (JObj [(js ''status'', JStr (js ''failed'')), (js ''title'', JStr (js ''T''))])\<rparr>"

definition started_poll :: "fetch_response option" where
  "started_poll = Some \<lparr>resp_status = 200,
       resp_json = Some (JObj [(js ''status'', JStr (js ''started'')), (js ''title'', JStr (js ''T''))])\<rparr>"

definition object_title_poll :: "fetch_response option" where
  "object_title_poll = Some \<lparr>resp_status = 200,
       resp_json = Some (JObj [(js ''status'', JStr (js ''started'')),
                               (js ''title'', JObj [(js ''a'', JNum 1)])])\<rparr>"


section \<open>The middleware (ui/src/middleware.ts)\<close>

text \<open>
  The request as the middleware reads it: the pathname of \<open>request.nextUrl\<close> and the
  cookie jar (name and value of each cookie).  \<open>request.cookies.get\<close> returns the
  cookie object of the first cookie of that name or \<open>undefined\<close>; a cookie object is
  truthy whatever its value.
\<close>

record request =
  pathname :: jsstring
  cookies :: "(jsstring \<times> jsstring) list"

datatype mw_response = Redirect jsstring | Next

definition cookies_get :: "request \<Rightarrow> jsstring \<Rightarrow> jsstring option" where
  "cookies_get req name = map_of (cookies req) name"

definition isAuthPage :: "request \<Rightarrow> bool" where
  "isAuthPage req =
     (startsWith (pathname req) (js ''/login'') \<or> startsWith (pathname req) (js ''/register''))"

text \<open>
  \<open>NextResponse.redirect(new URL(p, request.url))\<close> is \<open>Redirect p\<close>: the target is the
  path \<open>p\<close> on the origin of the request.
\<close>

definition middleware :: "request \<Rightarrow> mw_response" where
  "middleware req =
     (let token = cookies_get req (js ''token'') in
      if pathname req = js ''/'' \<and> token = None then Redirect (js ''/login'')
      else if token = None \<and> \<not> isAuthPage req then Redirect (js ''/login'')
      else if token \<noteq> None \<and> isAuthPage req then Redirect (js ''/'')
      else Next)"

text \<open>
  \<open>config.matcher\<close> is the one pattern \<open>/((?!api|_next/static|_next/image|favicon.ico).*)\<close>,
  matched against the whole pathname: a slash, then a rest that does not begin with
  \<open>api\<close>, \<open>_next/static\<close>, \<open>_next/image\<close> or \<open>favicon\<close>, any one character, \<open>ico\<close>,
  and that \<open>.*\<close> can run through, so it holds no line terminator.
\<close>

definition lineTerminator :: "code_unit \<Rightarrow> bool" where
  "lineTerminator c = (c = 0x0A \<or> c = 0x0D \<or> c = 0x2028 \<or> c = 0x2029)"

definition favicon_ico :: "jsstring \<Rightarrow> bool" where
  "favicon_ico r =
     (startsWith r (js ''favicon'') \<and> 11 \<le> length r \<and> \<not> lineTerminator (r ! 7)
      \<and> take 3 (drop 8 r) = js ''ico'')"

definition excluded :: "jsstring \<Rightarrow> bool" where
  "excluded r =
     (startsWith r (js ''api'') \<or> startsWith r (js ''_next/static'')
      \<or> startsWith r (js ''_next/image'') \<or> favicon_ico r)"

definition matcher :: "jsstring \<Rightarrow> bool" where
  "matcher p =
     (case p of
        [] \<Rightarrow> False
      | c # r \<Rightarrow> c = 0x2F \<and> \<not> excluded r \<and> list_all (\<lambda>u. \<not> lineTerminator u) r)"

text \<open>
  A request whose pathname the matcher refuses never reaches the middleware and
  proceeds as it is.
\<close>

definition handle :: "request \<Rightarrow> mw_response" where
  "handle req = (if matcher (pathname req) then middleware req else Next)"


section \<open>The chat prompt (ui/src/app/api/llm/route.ts)\<close>

text \<open>
  A node of the posted \<open>graphData\<close>, as the route's annotation types it:
  \<open>{ name: any; content: string }\<close>.
\<close>

record node =
  name :: jsval
  content :: jsstring

text \<open>
  \<open>s.substring(start, end)\<close> on numbers: both are truncated to integers, clamped to
  \<open>0 .. s.length\<close>, and swapped when the start is the larger.
\<close>

definition to_integer :: "rat \<Rightarrow> int" where
  "to_integer x = (if x < 0 then - \<lfloor>- x\<rfloor> else \<lfloor>x\<rfloor>)"

definition substring :: "jsstring \<Rightarrow> rat \<Rightarrow> rat \<Rightarrow> jsstring" where
  "substring s start end =
     (let n = int (length s);
          finalStart = min (max (to_integer start) 0) n;
          finalEnd = min (max (to_integer end) 0) n;
          from = min finalStart finalEnd;
          to = max finalStart finalEnd
      in take (nat (to - from)) (drop (nat from) s))"

text \<open>The fixed texts of the prompt, line breaks and indentation as in the source.\<close>

definition prompt_head :: jsstring where
  "prompt_head = js (''\<newline>    You are an AI assistant that answers questions about a knowledge graph on machine learning.''
     @ ''\<newline>    The graph contains the following nodes and links:''
     @ ''\<newline>    \<newline>    Nodes:\<newline>    '')"

definition prompt_mid :: jsstring where
  "prompt_mid = js (''\<newline>    \<newline>    Please answer the following question based on this knowledge graph:''
     @ ''\<newline>    '')"

definition prompt_tail :: jsstring where
  "prompt_tail = js (''\<newline>\<newline>    Cite the nodes where you are getting the answer from, by enclosing it in double brackets [[Node Name]].''
     @ ''\<newline>  '')"

text \<open>One element of \<open>graphData.nodes.map(...)\<close>.\<close>

definition node_line :: "(jsval \<Rightarrow> jsstring option) \<Rightarrow> rat \<Rightarrow> node \<Rightarrow> jsstring option" where
  "node_line tostr len nd =
     (case template tostr (name nd) of
        None \<Rightarrow> None
      | Some nm \<Rightarrow> Some (js ''- '' @ nm @ js '': '' @ substring (content nd) 0 len @ js ''...''))"

text \<open>
  The prompt of \<open>POST\<close>.  \<open>len\<close> is \<open>5000 / graphData.nodes.length\<close>, a number that
  is not rounded; \<open>substring\<close> truncates it.  (The double nearest to \<open>5000 / n\<close>
  has the integer part of the exact quotient for every array length \<open>n \<ge> 1\<close>, so
  the quotient is taken exactly.  For no nodes the source's \<open>len\<close> is \<open>Infinity\<close>
  and nothing reads it, here neither.)  \<open>map\<close> runs through the nodes in order
  and the first conversion that throws ends the route.
\<close>

definition build_prompt ::
  "(jsval \<Rightarrow> jsstring option) \<Rightarrow> jsval \<Rightarrow> node list \<Rightarrow> jsstring option" where
  "build_prompt tostr question nodes =
     (let len = 5000 / of_nat (length nodes) in
      case those (map (node_line tostr len) nodes) of
        None \<Rightarrow> None
      | Some lines \<Rightarrow>
          (case template tostr question of
             None \<Rightarrow> None
           | Some q \<Rightarrow>
               Some (prompt_head @ join (js ''\<newline>'') lines @ prompt_mid @ q @ prompt_tail)))"

text \<open>What the prompt holds of the nodes' contents, node by node.\<close>

definition included :: "node list \<Rightarrow> jsstring list" where
  "included nodes = map (\<lambda>nd. substring (content nd) 0 (5000 / of_nat (length nodes))) nodes"

text \<open>Three nodes for the example: contents of 2000, 10 and 0 code units.\<close>

definition three_nodes :: "node list" where
  "three_nodes =
     [\<lparr>name = JStr (js ''Qubits''), content = replicate 2000 0x61\<rparr>,
      \<lparr>name = JStr (js ''Gates''), content = js ''0123456789''\<rparr>,
      \<lparr>name = JNull, content = []\<rparr>]"


section \<open>Requests to the backend and responses of the routes\<close>

text \<open>
  A call \<open>fetch(url, {method, headers, body})\<close>.  A JSON body is the value that
  \<open>JSON.stringify\<close> wrote; a form body is the list of the appended fields.
\<close>

datatype http_method = GET | POST

datatype http_body =
    NoBody
  | JsonBody jsval
  | FormData "(jsstring \<times> jsstring) list"

record fetch_request =
  req_url :: jsstring
  req_method :: http_method
  req_headers :: "(jsstring \<times> jsstring) list"
  req_body :: http_body

text \<open>
  The backend answers a request from its state \<open>'s\<close> and moves to a new state;
  \<open>None\<close> is a fetch that rejects.
\<close>

type_synonym 's backend = "fetch_request \<Rightarrow> 's \<Rightarrow> fetch_response option \<times> 's"

text \<open>
  What a route returns: status, JSON body, and the calls made on \<open>response.cookies\<close>
  in order.
\<close>

record cookie =
  cookie_name :: jsstring
  cookie_value :: jsval
  httpOnly :: bool
  secure :: bool
  sameSite :: jsstring
  maxAge :: nat

datatype cookie_op = SetCookie cookie | DeleteCookie jsstring

record route_response =
  res_status :: nat
  res_body :: jsval
  res_cookies :: "cookie_op list"

text \<open>
  \<open>{k1: v1, ...}\<close> as \<open>JSON.stringify\<close> writes it and as \<open>NextResponse.json\<close> sends it:
  a property whose value is \<open>undefined\<close> is left out.
\<close>

definition json_object :: "(jsstring \<times> jsval) list \<Rightarrow> jsval" where
  "json_object kvs = JObj (filter (\<lambda>kv. snd kv \<noteq> JUndefined) kvs)"

text \<open>
  \<open>NextResponse.json(body, {status})\<close>: the Response constructor throws a RangeError
  for a status outside 200 to 599 and a TypeError for a body with a null-body status.
\<close>

definition nullBodyStatus :: "nat \<Rightarrow> bool" where
  "nullBodyStatus st = (st = 101 \<or> st = 103 \<or> st = 204 \<or> st = 205 \<or> st = 304)"

definition NextResponse_json :: "jsval \<Rightarrow> nat \<Rightarrow> route_response option" where
  "NextResponse_json b st =
     (if st < 200 \<or> 599 < st \<or> nullBodyStatus st then None
      else Some \<lparr>res_status = st, res_body = b, res_cookies = []\<rparr>)"

definition error_response :: "string \<Rightarrow> nat \<Rightarrow> route_response" where
  "error_response msg st =
     \<lparr>res_status = st, res_body = JObj [(js ''error'', JStr (js msg))], res_cookies = []\<rparr>"


section \<open>The graph-status route (POST)\<close>

text \<open>
  The request the route sends for the texts of \<open>uuid\<close> and \<open>auth\<close>.
\<close>

definition status_request :: "jsstring \<Rightarrow> jsstring \<Rightarrow> jsstring \<Rightarrow> fetch_request" where
  "status_request BACKEND_URL uuid auth =
     \<lparr>req_url = BACKEND_URL @ js ''/knowledge-graphs/status/'' @ uuid,
      req_method = GET,
      req_headers = [(js ''Content-Type'', js ''application/json''),
                     (js ''Authorization'', js ''Bearer '' @ auth)],
      req_body = NoBody\<rparr>"

text \<open>
  What the route makes of the backend's answer: the \<open>catch\<close> when the fetch rejects
  or a body is not JSON; the body under the backend's status when the answer is not ok;
  the body under the default status 200 when it is.
\<close>

definition status_answer :: "fetch_response option \<Rightarrow> route_response" where
  "status_answer outcome =
     (case outcome of
        None \<Rightarrow> error_response ''Failed to fetch graph status'' 500
      | Some response \<Rightarrow>
          (case resp_json response of
             None \<Rightarrow> error_response ''Failed to fetch graph status'' 500
           | Some data \<Rightarrow>
               if \<not> ok response then
                 (case NextResponse_json data (resp_status response) of
                    None \<Rightarrow> error_response ''Failed to fetch graph status'' 500
                  | Some r \<Rightarrow> r)
               else \<lparr>res_status = 200, res_body = data, res_cookies = []\<rparr>))"

text \<open>
  The route.  \<open>request_json\<close> is what \<open>await request.json()\<close> gives (\<open>None\<close>: it
  throws).  Destructuring \<open>null\<close> throws; so does a \<open>uuid\<close> or \<open>auth\<close> that has no
  string conversion.  The result is the response, the requests sent to the backend in
  order, and the backend's state afterwards.
\<close>

definition graph_status_POST ::
  "jsstring \<Rightarrow> (jsval \<Rightarrow> jsstring option) \<Rightarrow> 's backend \<Rightarrow> jsval option \<Rightarrow> 's
     \<Rightarrow> route_response \<times> fetch_request list \<times> 's" where
  "graph_status_POST BACKEND_URL tostr backend request_json s =
     (case request_json of
        None \<Rightarrow> (error_response ''Failed to fetch graph status'' 500, [], s)
      | Some body \<Rightarrow>
          (case (get_prop body (js ''uuid''), get_prop body (js ''auth'')) of
             (Some uuid, Some auth) \<Rightarrow>
               if \<not> truthy uuid
               then (error_response ''UUID is required in the request body'' 400, [], s)
               else
                 (case (template tostr uuid, template tostr auth) of
                    (Some u, Some a) \<Rightarrow>
                      (let req = status_request BACKEND_URL u a;
                           answer = backend req s
                       in (status_answer (fst answer), [req], snd answer))
                  | _ \<Rightarrow> (error_response ''Failed to fetch graph status'' 500, [], s))
           | _ \<Rightarrow> (error_response ''Failed to fetch graph status'' 500, [], s)))"

text \<open>
  A backend for the examples: it knows user 7 and one graph and answers every other
  request with 201 and a body.  A \<open>ToString\<close> that converts nothing.
\<close>

definition demo_backend :: "unit backend" where
  "demo_backend req s =
     (if req_url req = js ''http://backend/auth/me''
      then (Some \<lparr>resp_status = 200, resp_json = Some (JObj [(js ''id'', JNum 7)])\<rparr>, s)
      else if req_url req = js ''http://backend/knowledge-graphs/''
      then (Some \<lparr>resp_status = 200, resp_json = Some (JObj [(js ''uuid'', JStr (js ''g-1''))])\<rparr>, s)
      else (Some \<lparr>resp_status = 201,
                   resp_json = Some (JObj [(js ''status'', JStr (js ''started''))])\<rparr>, s))"

definition no_ToString :: "jsval \<Rightarrow> jsstring option" where
  "no_ToString v = None"


section \<open>The create-knowledgebase route (ui/src/app/api/generate-knowledgebase/route.ts)\<close>

definition me_request :: "jsstring \<Rightarrow> jsstring \<Rightarrow> fetch_request" where
  "me_request BACKEND_URL token =
     \<lparr>req_url = BACKEND_URL @ js ''/auth/me'',
      req_method = GET,
      req_headers = [(js ''Authorization'', token)],
      req_body = NoBody\<rparr>"

definition create_request :: "jsstring \<Rightarrow> jsstring \<Rightarrow> jsval \<Rightarrow> jsval \<Rightarrow> fetch_request" where
  "create_request BACKEND_URL token title user_id =
     \<lparr>req_url = BACKEND_URL @ js ''/knowledge-graphs/'',
      req_method = POST,
      req_headers = [(js ''Authorization'', token),
                     (js ''Content-Type'', js ''application/json'')],
      req_body = JsonBody (json_object [(js ''title'', title), (js ''user_id'', user_id)])\<rparr>"

text \<open>What the route makes of the backend's answer to the create request.\<close>

definition create_answer :: "fetch_response option \<Rightarrow> route_response" where
  "create_answer outcome =
     (case outcome of
        None \<Rightarrow> error_response ''Failed to create knowledge graph'' 500
      | Some response \<Rightarrow>
          (case resp_json response of
             None \<Rightarrow> error_response ''Failed to create knowledge graph'' 500
           | Some data \<Rightarrow>
               if \<not> ok response then
                 (case NextResponse_json data (resp_status response) of
                    None \<Rightarrow> error_response ''Failed to create knowledge graph'' 500
                  | Some r \<Rightarrow> r)
               else \<lparr>res_status = 200, res_body = data, res_cookies = []\<rparr>))"

text \<open>
  The part of the route after the user lookup has answered ok: read the user, read
  the body of the request, check \<open>body.text\<close>, send the create request.
\<close>

definition create_graph ::
  "jsstring \<Rightarrow> 's backend \<Rightarrow> jsstring \<Rightarrow> fetch_request \<Rightarrow> fetch_response \<Rightarrow> jsval option \<Rightarrow> 's
     \<Rightarrow> route_response \<times> fetch_request list \<times> 's" where
  "create_graph BACKEND_URL backend token me userResponse request_json s1 =
     (case (resp_json userResponse, request_json) of
        (Some userInfo, Some body) \<Rightarrow>
          (case get_prop body (js ''text'') of
             None \<Rightarrow> (error_response ''Failed to create knowledge graph'' 500, [me], s1)
           | Some query \<Rightarrow>
               if \<not> truthy query then (error_response ''Query is required'' 400, [me], s1)
               else
                 (case get_prop userInfo (js ''id'') of
                    None \<Rightarrow> (error_response ''Failed to create knowledge graph'' 500, [me], s1)
                  | Some user_id \<Rightarrow>
                      (let req = create_request BACKEND_URL token query user_id;
                           answer = backend req s1
                       in (create_answer (fst answer), [me, req], snd answer))))
      | _ \<Rightarrow> (error_response ''Failed to create knowledge graph'' 500, [me], s1))"

text \<open>
  The route.  \<open>authorization\<close> is \<open>headersList.get('authorization')\<close> (\<open>None\<close> for
  \<open>null\<close>), \<open>request_json\<close> is what \<open>await request.json()\<close> gives.
\<close>

definition generate_knowledgebase_POST ::
  "jsstring \<Rightarrow> 's backend \<Rightarrow> jsstring option \<Rightarrow> jsval option \<Rightarrow> 's
     \<Rightarrow> route_response \<times> fetch_request list \<times> 's" where
  "generate_knowledgebase_POST BACKEND_URL backend authorization request_json s =
     (case authorization of
        None \<Rightarrow> (error_response ''Authorization token required'' 401, [], s)
      | Some token \<Rightarrow>
          if token = [] then (error_response ''Authorization token required'' 401, [], s)
          else
            (let me = me_request BACKEND_URL token;
                 answer = backend me s
             in case fst answer of
                  None \<Rightarrow> (error_response ''Failed to create knowledge graph'' 500, [me], snd answer)
                | Some userResponse \<Rightarrow>
                    if \<not> ok userResponse then
                      (case NextResponse_json (JObj [(js ''error'', JStr (js ''Failed to get user info''))])
                              (resp_status userResponse) of
                         None \<Rightarrow>
                           (error_response ''Failed to create knowledge graph'' 500, [me], snd answer)
                       | Some r \<Rightarrow> (r, [me], snd answer))
                    else create_graph BACKEND_URL backend token me userResponse request_json
                           (snd answer)))"

text \<open>
  The home page's \<open>handleSubmit\<close>: the body it posts to the route, with the text of
  the input and the selected mode.
\<close>

definition handleSubmit_body :: "jsstring \<Rightarrow> jsstring \<Rightarrow> jsval" where
  "handleSubmit_body textAreaValue mode =
     json_object [(js ''text'', JStr textAreaValue), (js ''mode'', JStr mode)]"

text \<open>The own keys of the JSON body of a request.\<close>

definition body_keys :: "fetch_request \<Rightarrow> jsstring list" where
  "body_keys req = (case req_body req of JsonBody (JObj kvs) \<Rightarrow> map fst kvs | _ \<Rightarrow> [])"

text \<open>A request body for the graph \<open>g-1\<close>.\<close>

definition g1_body :: jsval where
  "g1_body = JObj [(js ''uuid'', JStr (js ''g-1'')), (js ''auth'', JStr (js ''tok''))]"


section \<open>The auth route (ui/src/app/api/auth/route.ts)\<close>

text \<open>
  The requests of the route.  \<open>formData.append\<close> converts each value to a string;
  the JSON body of the register request leaves out what is \<open>undefined\<close>.
\<close>

definition token_request :: "jsstring \<Rightarrow> jsstring \<Rightarrow> jsstring \<Rightarrow> fetch_request" where
  "token_request BACKEND_URL username password =
     \<lparr>req_url = BACKEND_URL @ js ''/auth/token'',
      req_method = POST,
      req_headers = [],
      req_body = FormData [(js ''username'', username), (js ''password'', password)]\<rparr>"

definition register_request :: "jsstring \<Rightarrow> jsval \<Rightarrow> jsval \<Rightarrow> jsval \<Rightarrow> fetch_request" where
  "register_request BACKEND_URL username password email =
     \<lparr>req_url = BACKEND_URL @ js ''/auth/register'',
      req_method = POST,
      req_headers = [(js ''Content-Type'', js ''application/json'')],
      req_body = JsonBody (json_object [(js ''username'', username), (js ''password'', password),
                                        (js ''email'', email)])\<rparr>"

text \<open>
  The two cookies set after a login, recorded with the values passed to
  \<open>cookies.set\<close>; \<open>production\<close> is \<open>process.env.NODE_ENV === 'production'\<close>.
\<close>

definition session_cookies :: "bool \<Rightarrow> jsval \<Rightarrow> jsval \<Rightarrow> cookie_op list" where
  "session_cookies production access_token username =
     [SetCookie \<lparr>cookie_name = js ''token'', cookie_value = access_token, httpOnly = False,
                 secure = production, sameSite = js ''lax'', maxAge = 60 * 60 * 24 * 7\<rparr>,
      SetCookie \<lparr>cookie_name = js ''username'', cookie_value = username, httpOnly = False,
                 secure = production, sameSite = js ''lax'', maxAge = 60 * 60 * 24 * 7\<rparr>]"

definition message_response :: "string \<Rightarrow> cookie_op list \<Rightarrow> route_response" where
  "message_response msg cs =
     \<lparr>res_status = 200, res_body = JObj [(js ''message'', JStr (js msg))], res_cookies = cs\<rparr>"

text \<open>The last line of the \<open>try\<close>: the backend's data under the backend's status.\<close>

definition pass_through :: "jsval \<Rightarrow> fetch_response \<Rightarrow> route_response" where
  "pass_through data response =
     (case NextResponse_json data (resp_status response) of
        None \<Rightarrow> error_response ''Internal server error'' 500
      | Some r \<Rightarrow> r)"

text \<open>
  The login made with the form of \<open>username\<close> and \<open>password\<close>, and what follows it
  when \<open>action\<close> is \<open>login\<close>.  \<open>sent\<close> are the requests made before.
\<close>

definition auth_login ::
  "bool \<Rightarrow> jsstring \<Rightarrow> (jsval \<Rightarrow> jsstring option) \<Rightarrow> 's backend \<Rightarrow> jsval \<Rightarrow> jsval \<Rightarrow> 's
     \<Rightarrow> route_response \<times> fetch_request list \<times> 's" where
  "auth_login production BACKEND_URL tostr backend username password s =
     (case (template tostr username, template tostr password) of
        (Some u, Some p) \<Rightarrow>
          (let req = token_request BACKEND_URL u p;
               answer = backend req s
           in case fst answer of
                None \<Rightarrow> (error_response ''Internal server error'' 500, [req], snd answer)
              | Some response \<Rightarrow>
                  (case resp_json response of
                     None \<Rightarrow> (error_response ''Internal server error'' 500, [req], snd answer)
                   | Some data \<Rightarrow>
                       (case get_prop data (js ''access_token'') of
                          None \<Rightarrow> (error_response ''Internal server error'' 500, [req], snd answer)
                        | Some access_token \<Rightarrow>
                            if truthy access_token
                            then (message_response ''Login successful''
                                    (session_cookies production access_token username),
                                  [req], snd answer)
                            else (pass_through data response, [req], snd answer))))
      | _ \<Rightarrow> (error_response ''Internal server error'' 500, [], s))"

text \<open>The login that follows a registration answered with 200.\<close>

definition auto_login ::
  "bool \<Rightarrow> jsstring \<Rightarrow> (jsval \<Rightarrow> jsstring option) \<Rightarrow> 's backend \<Rightarrow> fetch_request
     \<Rightarrow> jsval \<Rightarrow> jsval \<Rightarrow> 's \<Rightarrow> route_response \<times> fetch_request list \<times> 's" where
  "auto_login production BACKEND_URL tostr backend req username password s1 =
     (case (template tostr username, template tostr password) of
        (Some u, Some p) \<Rightarrow>
          (let req2 = token_request BACKEND_URL u p;
               answer2 = backend req2 s1
           in case fst answer2 of
                None \<Rightarrow> (error_response ''Internal server error'' 500, [req, req2], snd answer2)
              | Some loginResponse \<Rightarrow>
                  (case resp_json loginResponse of
                     None \<Rightarrow>
                       (error_response ''Internal server error'' 500, [req, req2], snd answer2)
                   | Some loginData \<Rightarrow>
                       (case get_prop loginData (js ''access_token'') of
                          None \<Rightarrow>
                            (error_response ''Internal server error'' 500, [req, req2],
                             snd answer2)
                        | Some access_token \<Rightarrow>
                            if truthy access_token
                            then (message_response
                                    ''Registration successful, and login successful''
                                    (session_cookies production access_token username),
                                  [req, req2], snd answer2)
                            else (error_response ''Login failed after registration'' 500,
                                  [req, req2], snd answer2))))
      | _ \<Rightarrow> (error_response ''Internal server error'' 500, [req], s1))"

definition auth_register ::
  "bool \<Rightarrow> jsstring \<Rightarrow> (jsval \<Rightarrow> jsstring option) \<Rightarrow> 's backend \<Rightarrow> jsval \<Rightarrow> jsval \<Rightarrow> jsval
     \<Rightarrow> 's \<Rightarrow> route_response \<times> fetch_request list \<times> 's" where
  "auth_register production BACKEND_URL tostr backend username password email s =
     (let req = register_request BACKEND_URL username password email;
          answer = backend req s
      in case fst answer of
           None \<Rightarrow> (error_response ''Internal server error'' 500, [req], snd answer)
         | Some response \<Rightarrow>
             (case resp_json response of
                None \<Rightarrow> (error_response ''Internal server error'' 500, [req], snd answer)
              | Some data \<Rightarrow>
                  if resp_status response = 400
                  then (error_response ''User already exists'' 400, [req], snd answer)
                  else if resp_status response = 200
                  then auto_login production BACKEND_URL tostr backend req username password
                         (snd answer)
                  else (pass_through data response, [req], snd answer)))"

text \<open>
  The route.  \<open>request_json\<close> is what \<open>await request.json()\<close> gives; destructuring
  \<open>null\<close> throws.  The result is the response, the requests sent to the backend in
  order, and the backend's state afterwards.
\<close>

definition auth_POST ::
  "bool \<Rightarrow> jsstring \<Rightarrow> (jsval \<Rightarrow> jsstring option) \<Rightarrow> 's backend \<Rightarrow> jsval option \<Rightarrow> 's
     \<Rightarrow> route_response \<times> fetch_request list \<times> 's" where
  "auth_POST production BACKEND_URL tostr backend request_json s =
     (case request_json of
        None \<Rightarrow> (error_response ''Internal server error'' 500, [], s)
      | Some body \<Rightarrow>
          (case (get_prop body (js ''action''), get_prop body (js ''username''),
                 get_prop body (js ''password''), get_prop body (js ''email'')) of
             (Some action, Some username, Some password, Some email) \<Rightarrow>
               if action = JStr (js ''login'')
               then auth_login production BACKEND_URL tostr backend username password s
               else if action = JStr (js ''register'')
               then auth_register production BACKEND_URL tostr backend username password email s
               else if action = JStr (js ''logout'')
               then (\<lparr>res_status = 200,
                      res_body = JObj [(js ''message'', JStr (js ''Logout successful''))],
                      res_cookies = [DeleteCookie (js ''token''), DeleteCookie (js ''username'')]\<rparr>,
                     [], s)
               else (error_response ''Invalid action'' 400, [], s)
           | _ \<Rightarrow> (error_response ''Internal server error'' 500, [], s)))"

text \<open>A logout request that carries other fields too.\<close>

definition logout_body :: jsval where
  "logout_body =
     JObj [(js ''username'', JStr (js ''ada'')), (js ''action'', JStr (js ''logout'')),
           (js ''password'', JNum 1), (js ''extra'', JArr [JNull])]"


section \<open>The agent stream (component AgentThoughts)\<close>

text \<open>
  \<open>s.trim()\<close> removes white space and line terminators from both ends.
\<close>

definition whiteSpace :: "code_unit \<Rightarrow> bool" where
  "whiteSpace c =
     (c = 0x09 \<or> c = 0x0A \<or> c = 0x0B \<or> c = 0x0C \<or> c = 0x0D \<or> c = 0x20 \<or> c = 0xA0
      \<or> c = 0x1680 \<or> (0x2000 \<le> c \<and> c \<le> 0x200A) \<or> c = 0x2028 \<or> c = 0x2029
      \<or> c = 0x202F \<or> c = 0x205F \<or> c = 0x3000 \<or> c = 0xFEFF)"

definition trim :: "jsstring \<Rightarrow> jsstring" where
  "trim s = rev (dropWhile whiteSpace (rev (dropWhile whiteSpace s)))"

text \<open>
  The prefix the \<open>switch\<close> on \<open>data.type\<close> chooses, in UTF-16: the thinking face,
  the magnifying glass and the memo are surrogate pairs, the cross mark is one code
  unit; each is followed by a space.  Any other type gets no prefix.
\<close>

definition type_prefix :: "jsval \<Rightarrow> jsstring" where
  "type_prefix ty =
     (if ty = JStr (js ''thought'') then [0xD83E, 0xDD14, 0x20]
      else if ty = JStr (js ''action'') then [0xD83D, 0xDD0D, 0x20]
      else if ty = JStr (js ''observation'') then [0xD83D, 0xDCDD, 0x20]
      else if ty = JStr (js ''error'') then [0x274C, 0x20]
      else [])"

text \<open>
  \<open>formattedMessage\<close> for parsed \<open>data\<close>; \<open>None\<close> when reading \<open>data.type\<close> or
  converting \<open>data.content\<close> throws.
\<close>

definition formattedMessage :: "(jsval \<Rightarrow> jsstring option) \<Rightarrow> jsval \<Rightarrow> jsstring option" where
  "formattedMessage tostr data =
     (case (get_prop data (js ''type''), get_prop data (js ''content'')) of
        (Some ty, Some c) \<Rightarrow>
          (case template tostr c of
             None \<Rightarrow> None
           | Some text \<Rightarrow> Some (type_prefix ty @ text @ [0x0A]))
      | _ \<Rightarrow> None)"

text \<open>
  The body of the \<open>for\<close> loop for one line: the message it appends, if any.
  \<open>parse\<close> is \<open>JSON.parse\<close> (\<open>None\<close>: it throws).  Whatever is thrown inside the
  inner \<open>try\<close> is caught there and logged, and the loop goes on.
\<close>

definition on_line ::
  "(jsstring \<Rightarrow> jsval option) \<Rightarrow> (jsval \<Rightarrow> jsstring option) \<Rightarrow> jsstring \<Rightarrow> jsstring option" where
  "on_line parse tostr line =
     (if trim line \<noteq> [] then
        (case parse line of
           None \<Rightarrow> None
         | Some data \<Rightarrow> formattedMessage tostr data)
      else None)"

text \<open>
  The \<open>while\<close> loop over the chunks the reader delivers, decoded: the buffer grows by
  the chunk and is split at the line feeds, the last piece stays in the buffer, the
  others are handled in order.  The result is the thoughts and the buffer when the
  reader is done.
\<close>

fun read_loop ::
  "(jsstring \<Rightarrow> jsval option) \<Rightarrow> (jsval \<Rightarrow> jsstring option) \<Rightarrow> jsstring list \<Rightarrow> jsstring
     \<Rightarrow> jsstring list \<Rightarrow> jsstring list \<times> jsstring" where
  "read_loop parse tostr [] buffer thoughts = (thoughts, buffer)"
| "read_loop parse tostr (chunk # chunks) buffer thoughts =
     (let lines = split_on 0x0A (buffer @ chunk)
      in read_loop parse tostr chunks (last lines)
           (thoughts @ List.map_filter (on_line parse tostr) (butlast lines)))"

text \<open>
  The outcome of the fetch of \<open>/api/agents/stream\<close>: it rejects (with the text of the
  error), or it answers, ok or not, with or without a body to read; a body is its
  chunks and how the stream ends, closed or with a read that rejects.
\<close>

datatype stream_end = Closed | Broken jsstring

datatype stream_outcome =
    Rejected jsstring
  | Answered bool "(jsstring list \<times> stream_end) option"

record agent_thoughts =
  prompt :: jsstring
  thoughts :: "jsstring list"
  isStreaming :: bool

text \<open>The message of the outer \<open>catch\<close> for the text of the error.\<close>

definition error_thought :: "jsstring \<Rightarrow> jsstring" where
  "error_thought e = [0x274C, 0x20] @ js ''Error: '' @ e @ [0x0A]"

definition handleSubmit ::
  "(jsstring \<Rightarrow> jsval option) \<Rightarrow> (jsval \<Rightarrow> jsstring option) \<Rightarrow> stream_outcome
     \<Rightarrow> agent_thoughts \<Rightarrow> agent_thoughts" where
  "handleSubmit parse tostr outcome st =
     (if trim (prompt st) = [] \<or> isStreaming st then st
      else
        (case outcome of
           Rejected e \<Rightarrow> st\<lparr>thoughts := [error_thought e], isStreaming := False\<rparr>
         | Answered response_ok body \<Rightarrow>
             if \<not> response_ok
             then st\<lparr>thoughts := [error_thought (js ''Error: Stream request failed'')],
                     isStreaming := False\<rparr>
             else
               (case body of
                  None \<Rightarrow>
                    st\<lparr>thoughts := [error_thought (js ''Error: No reader available'')],
                       isStreaming := False\<rparr>
                | Some (chunks, ending) \<Rightarrow>
                    (let shown = fst (read_loop parse tostr chunks [] [])
                     in case ending of
                          Closed \<Rightarrow> st\<lparr>thoughts := shown, isStreaming := False\<rparr>
                        | Broken e \<Rightarrow>
                            st\<lparr>thoughts := shown @ [error_thought e], isStreaming := False\<rparr>))))"

text \<open>
  For the examples: the text of an event object with a string type and content, and
  \<open>JSON.parse\<close> on the texts the examples use (any other text is taken not to parse).
\<close>

definition quoted :: "string \<Rightarrow> jsstring" where
  "quoted s = [0x22] @ js s @ [0x22]"

definition event_text :: "string \<Rightarrow> string \<Rightarrow> jsstring" where
  "event_text ty c =
     js ''{'' @ quoted ''type'' @ js '':'' @ quoted ty @ js '','' @ quoted ''content'' @ js '':''
       @ quoted c @ js ''}''"

definition parse_examples :: "jsstring \<Rightarrow> jsval option" where
  "parse_examples s =
     (if s = js ''null'' then Some JNull
      else if s = event_text ''thought'' ''plan''
      then Some (JObj [(js ''type'', JStr (js ''thought'')), (js ''content'', JStr (js ''plan''))])
      else if s = event_text ''done'' ''ok''
      then Some (JObj [(js ''type'', JStr (js ''done'')), (js ''content'', JStr (js ''ok''))])
      else None)"

definition idle :: agent_thoughts where
  "idle = \<lparr>prompt = js ''go'', thoughts = [], isStreaming = False\<rparr>"

text \<open>
  A stream of three chunks: a thought cut after its first code unit, then \<open>null\<close>, a
  line that is not JSON, an event of another type, and a last line with no line feed.
\<close>

definition example_chunks :: "jsstring list" where
  "example_chunks =
     [js ''{'',
      quoted ''type'' @ js '':'' @ quoted ''thought'' @ js '','' @ quoted ''content'' @ js '':''
        @ quoted ''plan'' @ js ''}'' @ [0x0A] @ js ''null'' @ [0x0A] @ js ''oops'' @ [0x0A],
      event_text ''done'' ''ok'' @ [0x0A] @ js ''tail'']"


section \<open>The citation markers (ui/src/components/doc-renderer.tsx)\<close>

text \<open>
  The pattern \<open>/\[S(\d+)\]/\<close> at the start of a string: an opening bracket, \<open>S\<close>, one
  or more digits taken greedily, a closing bracket.  A match gives the digits of the
  group and what follows the match.  (Giving back digits cannot help: what follows the
  digits would again have to be the bracket.)
\<close>

definition digit :: "code_unit \<Rightarrow> bool" where
  "digit c = (0x30 \<le> c \<and> c \<le> 0x39)"

definition match_marker :: "jsstring \<Rightarrow> (jsstring \<times> jsstring) option" where
  "match_marker s =
     (case s of
        a # b # t \<Rightarrow>
          if a = 0x5B \<and> b = 0x53 then
            (case dropWhile digit t of
               [] \<Rightarrow> None
             | e # rest \<Rightarrow>
                 if takeWhile digit t \<noteq> [] \<and> e = 0x5D then Some (takeWhile digit t, rest)
                 else None)
          else None
      | _ \<Rightarrow> None)"

text \<open>The text of the marker with the digits \<open>ds\<close>.\<close>

definition marker :: "jsstring \<Rightarrow> jsstring" where
  "marker ds = [0x5B, 0x53] @ ds @ [0x5D]"

text \<open>
  \<open>parseInt\<close> on the digits of the group.  (Beyond \<open>2^53\<close> the source's number is
  rounded; it is then far above any array length, as the exact value is, so the
  comparisons below come out the same.)
\<close>

definition parseInt :: "jsstring \<Rightarrow> int" where
  "parseInt ds = foldl (\<lambda>n c. 10 * n + (int (unat c) - 48)) 0 ds"

text \<open>
  \<open>xs[i]\<close> is \<open>undefined\<close> outside the array; \<open>v?.k\<close> is \<open>undefined\<close> on \<open>undefined\<close>
  and \<open>null\<close>.
\<close>

definition array_get :: "jsval list \<Rightarrow> int \<Rightarrow> jsval" where
  "array_get xs i = (if 0 \<le> i \<and> i < int (length xs) then xs ! nat i else JUndefined)"

definition opt_prop :: "jsval \<Rightarrow> jsstring \<Rightarrow> jsval" where
  "opt_prop v k = (case get_prop v k of None \<Rightarrow> JUndefined | Some x \<Rightarrow> x)"

text \<open>\<open>chunk?.content?.metadata\<close>\<close>

definition metadata_of :: "jsval \<Rightarrow> jsval" where
  "metadata_of chunk = opt_prop (opt_prop chunk (js ''content'')) (js ''metadata'')"

text \<open>\<open>chunk.content.metadata.k\<close>, every read of which can throw.\<close>

definition metadata_field :: "jsval \<Rightarrow> jsstring \<Rightarrow> jsval option" where
  "metadata_field chunk k =
     (case get_prop chunk (js ''content'') of
        None \<Rightarrow> None
      | Some c \<Rightarrow>
          (case get_prop c (js ''metadata'') of
             None \<Rightarrow> None
           | Some m \<Rightarrow> get_prop m k))"

text \<open>
  The callback of \<open>replace\<close>, for the matched text and the digits: what it returns and
  the indices at which it reads \<open>chunks\<close>, in order (\<open>&&\<close> evaluates \<open>chunks[index]\<close>
  only after both comparisons).  \<open>badge\<close> is \<open>renderToString\<close> of the \<open>SourceBadge\<close>
  for the index and the title and url of the metadata object.
\<close>

definition replacer ::
  "(int \<Rightarrow> jsval \<Rightarrow> jsval \<Rightarrow> jsstring) \<Rightarrow> jsval list \<Rightarrow> jsstring \<Rightarrow> jsstring
     \<Rightarrow> (jsstring \<times> int list) option" where
  "replacer badge chunks matched number =
     (let index = parseInt number - 1 in
      if index \<ge> 0 \<and> index < int (length chunks) then
        (if truthy (metadata_of (array_get chunks index)) then
           (case (metadata_field (array_get chunks index) (js ''title''),
                  metadata_field (array_get chunks index) (js ''url'')) of
              (Some title, Some url) \<Rightarrow> Some (badge index title url, [index, index, index])
            | _ \<Rightarrow> None)
         else Some (matched, [index]))
      else Some (matched, []))"

lemma match_marker_shorter:
  "match_marker s = Some (ds, rest) \<Longrightarrow> length rest < length s"
proof -
  assume m: "match_marker s = Some (ds, rest)"
  then obtain a b t where s: "s = a # b # t"
    by (cases s rule: list.exhaust; simp add: match_marker_def split: list.splits)
  from m s obtain e where "dropWhile digit t = e # rest"
    by (auto simp: match_marker_def split: list.splits if_splits)
  then have "length (dropWhile digit t) = Suc (length rest)" by simp
  moreover have "length (dropWhile digit t) \<le> length t" by (rule length_dropWhile_le)
  ultimately show ?thesis using s by simp
qed

text \<open>
  \<open>s.replace(/\[S(\d+)\]/g, f)\<close>: the matches are found from left to right, each search
  starting where the last match ended; \<open>f\<close> gives the replacement of each match, and
  what lies between the matches is copied.  With the replacements come the reads of
  \<open>chunks\<close> that \<open>f\<close> made.
\<close>

function replace_markers ::
  "(jsstring \<Rightarrow> jsstring \<Rightarrow> (jsstring \<times> int list) option) \<Rightarrow> jsstring
     \<Rightarrow> (jsstring \<times> int list) option" where
  "replace_markers f [] = Some ([], [])"
| "replace_markers f (c # cs) =
     (case match_marker (c # cs) of
        None \<Rightarrow>
          (case replace_markers f cs of
             None \<Rightarrow> None
           | Some (out, reads) \<Rightarrow> Some (c # out, reads))
      | Some (ds, rest) \<Rightarrow>
          (case f (marker ds) ds of
             None \<Rightarrow> None
           | Some (piece, reads1) \<Rightarrow>
               (case replace_markers f rest of
                  None \<Rightarrow> None
                | Some (out, reads2) \<Rightarrow> Some (piece @ out, reads1 @ reads2))))"
  by pat_completeness auto
termination
  by (relation "measure (\<lambda>(f, s). length s)") (auto dest: match_marker_shorter)

text \<open>
  \<open>renderContent\<close>: the part is rendered to HTML (\<open>markdown\<close> is \<open>renderToString\<close>
  of the \<open>ReactMarkdown\<close> element), the markers of the HTML are replaced, and the result
  is sanitized (\<open>sanitize\<close> is \<open>DOMPurify.sanitize\<close>).
\<close>

definition processedHtml ::
  "(int \<Rightarrow> jsval \<Rightarrow> jsval \<Rightarrow> jsstring) \<Rightarrow> jsval list \<Rightarrow> jsstring
     \<Rightarrow> (jsstring \<times> int list) option" where
  "processedHtml badge chunks htmlString = replace_markers (replacer badge chunks) htmlString"

definition renderContent ::
  "(jsstring \<Rightarrow> jsstring) \<Rightarrow> (jsstring \<Rightarrow> jsstring) \<Rightarrow> (int \<Rightarrow> jsval \<Rightarrow> jsval \<Rightarrow> jsstring)
     \<Rightarrow> jsval list \<Rightarrow> jsstring \<Rightarrow> (jsstring \<times> int list) option" where
  "renderContent markdown sanitize badge chunks part =
     (case processedHtml badge chunks (markdown part) of
        None \<Rightarrow> None
      | Some (html, reads) \<Rightarrow> Some (sanitize html, reads))"

text \<open>No marker is matched anywhere in the string.\<close>

definition marker_free :: "jsstring \<Rightarrow> bool" where
  "marker_free s = list_all (\<lambda>i. match_marker (drop i s) = None) [0..<length s]"

text \<open>
  For the example: two chunks, the first with a metadata object, the second without,
  and a badge that shows the index and the url.
\<close>

definition two_chunks :: "jsval list" where
  "two_chunks =
     [JObj [(js ''content'',
             JObj [(js ''metadata'',
                    JObj [(js ''title'', JStr (js ''Paper'')), (js ''url'', JStr (js ''u1''))])])],
      JObj [(js ''content'', JStr (js ''text''))]]"

definition plain_badge :: "int \<Rightarrow> jsval \<Rightarrow> jsval \<Rightarrow> jsstring" where
  "plain_badge index title url =
     (case url of
        JStr u \<Rightarrow> js ''<a href='' @ u @ js ''>Source'' @ (if index = 0 then js ''1'' else js ''n'')
                   @ js ''</a>''
      | _ \<Rightarrow> js ''<a>Source</a>'')"


text \<open>
  The chunk is an object whose \<open>content\<close> is an object with an own property
  \<open>metadata\<close>, whatever its value.
\<close>

definition has_metadata_field :: "jsval \<Rightarrow> bool" where
  "has_metadata_field chunk =
     (case chunk of
        JObj kvs \<Rightarrow>
          (case map_of kvs (js ''content'') of
             Some (JObj cs) \<Rightarrow> js ''metadata'' \<in> fst ` set cs
           | _ \<Rightarrow> False)
      | _ \<Rightarrow> False)"

text \<open>
  For the examples: a chunk whose metadata is \<open>null\<close>; the HTML that
  \<open>renderToString\<close> of the \<open>ReactMarkdown\<close> element gives for the texts of the
  examples (an inline link for \<open>[S1](u)\<close>, and a paragraph for a line of plain text);
  and a sanitizer that keeps the HTML as it is.
\<close>

definition null_chunks :: "jsval list" where
  "null_chunks = [JObj [(js ''content'', JObj [(js ''metadata'', JNull)])]]"

definition markdown_examples :: "jsstring \<Rightarrow> jsstring" where
  "markdown_examples part =
     (if part = marker (js ''1'') @ js ''(u)''
      then js ''<p><a href='' @ [0x22] @ js ''u'' @ [0x22] @ js ''>S1</a></p>''
      else js ''<p>'' @ part @ js ''</p>'')"

definition keep_html :: "jsstring \<Rightarrow> jsstring" where
  "keep_html html = html"

section \<open>Properties\<close>

subsection \<open>The middleware\<close>

lemma startsWith_js_slash:
  "\<not> startsWith (js ''/'') (js ''/login'')" "\<not> startsWith (js ''/'') (js ''/register'')"
  by (simp_all add: startsWith_def js_def)

lemma root_not_auth: "pathname req = js ''/'' \<Longrightarrow> \<not> isAuthPage req"
  by (simp add: isAuthPage_def startsWith_js_slash)

text \<open>
  C9.  For every request whose pathname the matcher accepts: with no \<open>token\<close> cookie
  the answer is a redirect to \<open>/login\<close> unless the path starts with \<open>/login\<close> or
  \<open>/register\<close>; with a \<open>token\<close> cookie on such an auth path the answer is a redirect
  to \<open>/\<close>; in every other case the request proceeds.  Hence a matched request that
  proceeds without a \<open>token\<close> cookie is on an auth path.
\<close>

theorem middleware_auth_invariant:
  assumes "matcher (pathname req)"
  shows "handle req =
           (if cookies_get req (js ''token'') = None
            then (if isAuthPage req then Next else Redirect (js ''/login''))
            else (if isAuthPage req then Redirect (js ''/'') else Next))
         \<and> (handle req = Next \<and> cookies_get req (js ''token'') = None
              \<longrightarrow> isAuthPage req)"
proof -
  have eq: "handle req =
           (if cookies_get req (js ''token'') = None
            then (if isAuthPage req then Next else Redirect (js ''/login''))
            else (if isAuthPage req then Redirect (js ''/'') else Next))"
    using assms root_not_auth [of req]
    by (auto simp: handle_def middleware_def Let_def)
  have "handle req = Next \<and> cookies_get req (js ''token'') = None \<longrightarrow> isAuthPage req"
    unfolding eq by (simp split: if_splits)
  with eq show ?thesis by blast
qed

theorem middleware_auth_invariant_witness:
  "matcher (js ''/graph/42'')
   \<and> handle \<lparr>pathname = js ''/graph/42'', cookies = []\<rparr> = Redirect (js ''/login'')
   \<and> handle \<lparr>pathname = js ''/login'', cookies = []\<rparr> = Next
   \<and> handle \<lparr>pathname = js ''/login'', cookies = [(js ''token'', js ''t'')]\<rparr>
       = Redirect (js ''/'')
   \<and> handle \<lparr>pathname = js ''/graph/42'', cookies = [(js ''token'', js ''t'')]\<rparr> = Next"
proof -
  have m1: "matcher (pathname \<lparr>pathname = js ''/graph/42'', cookies = []\<rparr>)"
    by (simp add: matcher_def excluded_def favicon_ico_def startsWith_def lineTerminator_def
        js_def)
  have m2: "matcher (js ''/login'')"
    by (simp add: matcher_def excluded_def favicon_ico_def startsWith_def lineTerminator_def
        js_def)
  have m3: "matcher (pathname \<lparr>pathname = js ''/graph/42'',
      cookies = [(js ''token'', js ''t'')]\<rparr>)"
    using m1 by simp
  have a1: "\<not> isAuthPage \<lparr>pathname = js ''/graph/42'', cookies = cs\<rparr>" for cs
    by (simp add: isAuthPage_def startsWith_def js_def)
  have a2: "isAuthPage \<lparr>pathname = js ''/login'', cookies = cs\<rparr>" for cs
    by (simp add: isAuthPage_def startsWith_def js_def)
  have t: "cookies_get \<lparr>pathname = p, cookies = [(js ''token'', js ''t'')]\<rparr> (js ''token'')
      \<noteq> None" for p
    by (simp add: cookies_get_def)
  have n: "cookies_get \<lparr>pathname = p, cookies = []\<rparr> (js ''token'') = None" for p
    by (simp add: cookies_get_def)
  show ?thesis
    using middleware_auth_invariant [OF m1]
      middleware_auth_invariant [of "\<lparr>pathname = js ''/login'', cookies = []\<rparr>"]
      middleware_auth_invariant
        [of "\<lparr>pathname = js ''/login'', cookies = [(js ''token'', js ''t'')]\<rparr>"]
      middleware_auth_invariant [OF m3]
      m1 m2 a1 a2 t n
    by simp
qed

subsection \<open>Splitting and joining\<close>

lemma split_on_ne: "split_on c xs \<noteq> []"
  by (induction xs) (auto split: list.splits)

lemma split_on_no_sep: "c \<notin> set xs \<Longrightarrow> split_on c xs = [xs]"
  by (induction xs) auto

lemma split_on_append_sep:
  "c \<notin> set xs \<Longrightarrow> split_on c (xs @ c # ys) = xs # split_on c ys"
  by (induction xs) auto

lemma split_on_join:
  "ts \<noteq> [] \<Longrightarrow> \<forall>t \<in> set ts. c \<notin> set t \<Longrightarrow> split_on c (join [c] ts) = ts"
proof (induction "[c]" ts rule: join.induct)
  case 1
  then show ?case by simp
next
  case (2 x)
  then show ?case by (simp add: split_on_no_sep)
next
  case (3 x y ys)
  then show ?case by (simp add: split_on_append_sep)
qed

lemma js_bar: "js ''|'' = [0x7C]" by (simp add: js_def)

lemma colon_notin_join:
  "\<forall>t \<in> set ts. c \<notin> set t \<Longrightarrow> c \<noteq> d \<Longrightarrow> c \<notin> set (join [d] ts)"
  by (induction "[d]" ts rule: join.induct) auto

lemma topics_prefix: "js ''topics_found:'' = js ''topics_found'' @ [0x3A]"
  by (simp add: js_def)

lemma colon_notin_prefix: "0x3A \<notin> set (js ''topics_found'')"
  by (simp add: js_def)

lemma topicList_roundtrip:
  assumes "ts \<noteq> []" "\<forall>t \<in> set ts. 0x3A \<notin> set t \<and> 0x7C \<notin> set t"
  shows "topicList (status_string (TopicsFound ts)) = Some ts"
proof -
  have a: "0x3A \<notin> set (join [0x7C] ts)"
    using assms(2) by (intro colon_notin_join) auto
  have "split_on 0x3A (status_string (TopicsFound ts)) = [js ''topics_found'', join [0x7C] ts]"
    using a colon_notin_prefix
    by (simp add: topics_prefix js_bar split_on_append_sep split_on_no_sep)
  then show ?thesis
    using assms by (simp add: topicList_def split_on_join)
qed

subsection \<open>The orchestrator\<close>

lemma transition_stage: "transition s t \<Longrightarrow> stage s < stage t"
  by (cases s; cases t) auto

lemma follows_sorted: "follows ws \<Longrightarrow> sorted_wrt (\<lambda>s t. stage s < stage t) ws"
proof (induction ws rule: follows.induct)
  case 1
  then show ?case by simp
next
  case (2 s)
  then show ?case by simp
next
  case (3 s t ws)
  then have st: "stage s < stage t" and srt: "sorted_wrt (\<lambda>s t. stage s < stage t) (t # ws)"
    by (auto dest: transition_stage)
  from srt have "\<forall>x \<in> set ws. stage t < stage x" by simp
  with st have "\<forall>x \<in> set (t # ws). stage s < stage x" by auto
  with srt show ?case by simp
qed

lemma follows_snoc:
  "ws \<noteq> [] \<Longrightarrow> follows (ws @ [s]) \<longleftrightarrow> follows ws \<and> transition (last ws) s"
  by (induction ws rule: follows.induct) auto

lemma setStatus_consistent:
  "consistent orch \<Longrightarrow> transition (current orch) s \<Longrightarrow> consistent (setStatus s orch)"
  by (simp add: consistent_def setStatus_def follows_snoc)

lemma mark_frame [simp]:
  "current (mark i p orch) = current orch" "written (mark i p orch) = written orch"
  by (simp_all add: mark_def)

lemma consistent_frame:
  "current orch' = current orch \<Longrightarrow> written orch' = written orch \<Longrightarrow>
   consistent orch \<Longrightarrow> consistent orch'"
  by (simp add: consistent_def)

lemma skip_consistent:
  "consistent orch \<Longrightarrow> transition (current orch) Failed \<Longrightarrow> consistent (skip i orch)"
  by (auto simp: skip_def Let_def intro!: setStatus_consistent elim: consistent_frame [rotated 2])

lemma articles_consistent: "consistent orch \<Longrightarrow> consistent (articles_when_settled orch)"
  by (auto simp: articles_when_settled_def intro!: setStatus_consistent)

lemma step_consistent: "consistent orch \<Longrightarrow> consistent (step orch ev)"
proof (cases "current orch")
  case Started
  assume c: "consistent orch"
  show ?thesis
  proof (cases ev)
    case (PlannerSucceeded ts)
    have "consistent (orch\<lparr>pipelines := replicate (length ts) Pending\<rparr>)"
      using c by (simp add: consistent_def)
    with c Started PlannerSucceeded show ?thesis
      by (auto simp: step_def intro!: setStatus_consistent)
  qed (use c Started in \<open>auto simp: step_def intro!: setStatus_consistent\<close>)
next
  case (TopicsFound ts)
  assume c: "consistent orch"
  have m: "consistent (mark i p orch)" for i p
    using c by (rule consistent_frame [rotated 2]) simp_all
  show ?thesis
    using c TopicsFound m
    by (cases ev) (auto simp: step_def intro!: setStatus_consistent skip_consistent)
next
  case SearchResultsFound
  assume c: "consistent orch"
  have m: "consistent (mark i p orch)" for i p
    using c by (rule consistent_frame [rotated 2]) simp_all
  show ?thesis
    using c SearchResultsFound m
    by (cases ev)
      (auto simp: step_def intro!: setStatus_consistent skip_consistent articles_consistent)
next
  case ArticlesGenerated
  assume c: "consistent orch"
  then show ?thesis
    using ArticlesGenerated by (cases ev) (auto simp: step_def intro!: setStatus_consistent)
next
  case Done
  assume "consistent orch"
  with Done show ?thesis by (simp add: step_def)
next
  case Failed
  assume "consistent orch"
  with Failed show ?thesis by (simp add: step_def)
qed

lemma run_consistent: "consistent orch \<Longrightarrow> consistent (run evs orch)"
  unfolding run_def by (induction evs arbitrary: orch) (auto intro: step_consistent)

lemma created_consistent: "consistent created"
  by (simp add: consistent_def created_def)

lemma step_fatal: "\<not> terminal (current orch) \<Longrightarrow> current (step orch FatalError) = Failed"
  by (cases "current orch") (simp_all add: step_def setStatus_def)

lemma step_terminal: "terminal (current orch) \<Longrightarrow> step orch ev = orch"
  by (cases "current orch") (simp_all add: step_def)

text \<open>
  C5.  Whatever the orchestrator is told and in whatever order, the statuses it has
  written for the graph begin with \<open>started\<close> and are strictly ordered along
  \<open>started \<rightarrow> topics_found \<rightarrow> search_results_found \<rightarrow> articles_generated \<rightarrow> done\<close>:
  each write follows the one before by a transition of the state machine (the next
  stage, or \<open>failed\<close>), every later write has a later stage than every earlier one, and
  a write of \<open>done\<close> is never followed by a write of \<open>articles_generated\<close>.  The last
  write is the current status.  \<open>failed\<close> is reached from every state that is not
  terminal, and in a terminal state nothing the orchestrator is told changes anything.
\<close>

theorem status_monotonic:
  "sorted_wrt (\<lambda>s t. stage s < stage t) (written (run evs created))
   \<and> follows (written (run evs created))
   \<and> hd (written (run evs created)) = Started
   \<and> last (written (run evs created)) = current (run evs created)
   \<and> (\<forall>i j. i < j \<and> j < length (written (run evs created))
          \<and> written (run evs created) ! i = Done
        \<longrightarrow> written (run evs created) ! j \<noteq> ArticlesGenerated)
   \<and> (\<not> terminal (current (run evs created))
        \<longrightarrow> current (step (run evs created) FatalError) = Failed)
   \<and> (terminal (current (run evs created)) \<longrightarrow> step (run evs created) ev = run evs created)"
proof -
  let ?ws = "written (run evs created)"
  have c: "consistent (run evs created)"
    using created_consistent by (rule run_consistent)
  then have srt: "sorted_wrt (\<lambda>s t. stage s < stage t) ?ws"
    by (simp add: consistent_def follows_sorted)
  have "?ws ! j \<noteq> ArticlesGenerated" if "i < j" "j < length ?ws" "?ws ! i = Done" for i j
  proof -
    from srt that(1,2) have "stage (?ws ! i) < stage (?ws ! j)"
      by (rule sorted_wrt_nth_less)
    with that(3) show ?thesis by auto
  qed
  with c srt step_fatal [of "run evs created"] step_terminal [of "run evs created" ev]
  show ?thesis
    unfolding consistent_def by blast
qed

lemma late_run:
  "written (run late_events created)
     = [Started, TopicsFound [js ''Qubits'', js ''Gates''], SearchResultsFound,
        ArticlesGenerated, Done]"
  by (simp add: run_def late_events_def created_def step_def setStatus_def mark_def skip_def
      articles_when_settled_def all_skipped_def all_settled_def Let_def)

theorem status_monotonic_witness:
  "written (run late_events created)
     = [Started, TopicsFound [js ''Qubits'', js ''Gates''], SearchResultsFound,
        ArticlesGenerated, Done]
   \<and> sorted_wrt (\<lambda>s t. stage s < stage t) (written (run late_events created))
   \<and> current (run late_events created) = Done
   \<and> step (run late_events created) (SynthesisCompleted 1) = run late_events created"
proof -
  have t: "terminal Done" by simp
  show ?thesis
    using status_monotonic [of late_events "SynthesisCompleted 1"] late_run t
    by simp
qed



subsection \<open>The topic list of a status\<close>

lemma startsWith_append: "startsWith (p @ s) p"
  by (simp add: startsWith_def)

lemma topics_found_not_literal:
  "js ''topics_found:'' @ x \<noteq> js ''done''"
  "js ''topics_found:'' @ x \<noteq> js ''search_results_found''"
  "js ''topics_found:'' @ x \<noteq> js ''articles_generated''"
  by (simp_all add: js_def)

lemma render_frame [simp]:
  "pushed (render st) = pushed st" "currentStage (render st) = currentStage st"
  "topics (render st) = topics st" "graphTitle (render st) = graphTitle st"
  "console (render st) = console st"
  by (simp_all add: render_def)

text \<open>
  C2.  For a non-empty list of topic names, none of which holds a colon or a pipe,
  the status \<open>topics_found:\<close> followed by the names joined with pipes is parsed by the
  loading page (second piece of the split at the colon, split at the pipes) into the
  same list in the same order, and that list is what the page stores as its topics.
\<close>

theorem topics_found_roundtrip:
  assumes "ts \<noteq> []" and "\<forall>t \<in> set ts. 0x3A \<notin> set t \<and> 0x7C \<notin> set t"
  shows "topicList (status_string (TopicsFound ts)) = Some ts
       \<and> topics (pollStatus slug
            (Some \<lparr>resp_status = 200,
                   resp_json = Some (JObj [(js ''status'', JStr (status_string (TopicsFound ts))),
                                           (js ''title'', title)])\<rparr>) st) = ts"
proof -
  have rt: "topicList (status_string (TopicsFound ts)) = Some ts"
    using assms by (rule topicList_roundtrip)
  have keys: "js ''title'' \<noteq> js ''status''" by (simp add: js_def)
  have "on_status slug (status_string (TopicsFound ts)) st' =
      st'\<lparr>currentStage := 1 + 1, console := console st' @ [LogTopics ts], topics := ts\<rparr>" for st'
    unfolding on_status_def using rt by (simp add: startsWith_append)
  then show ?thesis
    using rt keys
    by (simp add: pollStatus_def ok_def get_prop_def Let_def topics_found_not_literal)
qed

theorem topics_found_roundtrip_witness:
  "topicList (js ''topics_found:Quantum Gates|Qubits'') = Some [js ''Quantum Gates'', js ''Qubits'']"
proof -
  have a: "[js ''Quantum Gates'', js ''Qubits''] \<noteq> []" by simp
  have b: "\<forall>t \<in> set [js ''Quantum Gates'', js ''Qubits'']. 0x3A \<notin> set t \<and> 0x7C \<notin> set t"
    by (simp add: js_def)
  have c: "status_string (TopicsFound [js ''Quantum Gates'', js ''Qubits''])
      = js ''topics_found:Quantum Gates|Qubits''"
    by (simp add: js_def)
  show ?thesis
    using topics_found_roundtrip [OF a b] unfolding c by simp
qed

subsection \<open>The poller\<close>

lemma catch_poll_frame [simp]:
  "pushed (catch_poll st) = pushed st" "interval (catch_poll st) = interval st"
  "currentStage (catch_poll st) = currentStage st" "topics (catch_poll st) = topics st"
  "graphTitle (catch_poll st) = graphTitle st" "error_shown (catch_poll st) = error_shown st"
  by (simp_all add: catch_poll_def)

lemma on_status_frame [simp]:
  "interval (on_status slug s st) = interval st"
  "error_shown (on_status slug s st) = error_shown st"
  "graphTitle (on_status slug s st) = graphTitle st"
  by (simp_all add: on_status_def split: option.splits)

lemma on_status_pushed: "s \<noteq> js ''done'' \<Longrightarrow> pushed (on_status slug s st) = pushed st"
  by (simp add: on_status_def split: option.splits)

lemma on_status_other:
  "\<not> startsWith s (js ''topics_found:'') \<Longrightarrow> s \<noteq> js ''search_results_found'' \<Longrightarrow>
   s \<noteq> js ''articles_generated'' \<Longrightarrow> s \<noteq> js ''done'' \<Longrightarrow> on_status slug s st = st"
  by (simp add: on_status_def)

lemma on_status_stage:
  "currentStage (on_status slug s st) \<noteq> c \<Longrightarrow> currentStage st = c \<Longrightarrow>
   startsWith s (js ''topics_found:'') \<or> s = js ''search_results_found''
     \<or> s = js ''articles_generated''"
  by (auto simp: on_status_def split: if_splits option.splits)

lemma render_ok:
  "renderable (graphTitle st) \<Longrightarrow> render st = st"
  by (simp add: render_def)

lemma pollStatus_pushed:
  "polled_status outcome \<noteq> Some (JStr (js ''done'')) \<Longrightarrow>
   pushed (pollStatus slug outcome st) = pushed st"
  by (auto simp: pollStatus_def polled_status_def Let_def on_status_pushed
      split: option.splits jsval.splits prod.splits if_splits)

lemma pollStatus_running:
  assumes "case polled_title outcome of None \<Rightarrow> True | Some t \<Rightarrow> renderable t"
  shows "interval (pollStatus slug outcome st) = interval st
       \<and> error_shown (pollStatus slug outcome st) = error_shown st"
proof (cases "polled_title outcome")
  case None
  then show ?thesis
    by (auto simp: pollStatus_def polled_title_def Let_def
        split: option.splits prod.splits if_splits)
next
  case (Some t)
  with assms have r: "renderable t" by simp
  from Some obtain response data title where o: "outcome = Some response" "ok response"
    "resp_json response = Some data" "get_prop data (js ''title'') = Some title"
    "t = title_or_default title"
    by (auto simp: polled_title_def split: option.splits if_splits)
  then obtain status where s: "get_prop data (js ''status'') = Some status"
    by (cases data) (auto simp: get_prop_def)
  have "render x = x" if "graphTitle x = title_or_default title" for x
    using that r o(5) by (simp add: render_ok)
  then show ?thesis
    using o s by (simp add: pollStatus_def Let_def split: jsval.splits)
qed

lemma pollStatus_failed:
  assumes "polled_status outcome = None"
  shows "pollStatus slug outcome st = catch_poll st
       \<or> (\<exists>data. pollStatus slug outcome st = catch_poll (st\<lparr>console := console st @ [Log data]\<rparr>))"
  using assms
  by (auto simp: pollStatus_def polled_status_def Let_def
      split: option.splits prod.splits if_splits)

lemma pollStatus_title:
  "polled_title outcome = Some t \<Longrightarrow> graphTitle (pollStatus slug outcome st) = t"
proof -
  assume a: "polled_title outcome = Some t"
  then obtain response data title where o: "outcome = Some response" "ok response"
    "resp_json response = Some data" "get_prop data (js ''title'') = Some title"
    "t = title_or_default title"
    by (auto simp: polled_title_def split: option.splits if_splits)
  then obtain status where s: "get_prop data (js ''status'') = Some status"
    by (cases data) (auto simp: get_prop_def)
  show ?thesis
    using o s by (simp add: pollStatus_def Let_def split: jsval.splits)
qed

lemma pollStatus_other:
  assumes "polled_status outcome = Some (JStr s)"
    and "\<not> startsWith s (js ''topics_found:'')" and "s \<noteq> js ''search_results_found''"
    and "s \<noteq> js ''articles_generated''" and "s \<noteq> js ''done''"
  shows "currentStage (pollStatus slug outcome st) = currentStage st
       \<and> topics (pollStatus slug outcome st) = topics st
       \<and> pushed (pollStatus slug outcome st) = pushed st"
  using assms
  by (auto simp: pollStatus_def polled_status_def Let_def on_status_other
      split: option.splits prod.splits if_splits)

lemma pollStatus_stage:
  assumes "currentStage (pollStatus slug outcome st) \<noteq> currentStage st"
  shows "\<exists>s. polled_status outcome = Some (JStr s)
           \<and> (startsWith s (js ''topics_found:'') \<or> s = js ''search_results_found''
              \<or> s = js ''articles_generated'')"
  using assms
  by (auto simp: pollStatus_def polled_status_def Let_def
      split: option.splits prod.splits if_splits jsval.splits dest: on_status_stage)

lemma ticks_Cons: "ticks slug (x # xs) st = ticks slug xs (tick slug st x)"
  by (simp add: ticks_def)

lemma ticks_frame:
  "list_all keeps_going outcomes \<Longrightarrow>
   pushed (ticks slug outcomes st) = pushed st \<and> interval (ticks slug outcomes st) = interval st
     \<and> error_shown (ticks slug outcomes st) = error_shown st"
proof (induction outcomes arbitrary: st)
  case Nil
  then show ?case by (simp add: ticks_def)
next
  case (Cons x xs)
  then have k: "keeps_going x" by simp
  then have "pushed (tick slug st x) = pushed st" "interval (tick slug st x) = interval st"
    "error_shown (tick slug st x) = error_shown st"
    using pollStatus_running [of x slug st]
    by (simp_all add: tick_def pollStatus_pushed keeps_going_def)
  with Cons show ?case by (simp add: ticks_Cons)
qed

text \<open>
  C8, as amended.  As long as no poll reads the status \<open>done\<close> and every title a poll
  sets can be rendered, the page pushes no route, shows no error and its interval keeps
  running: started with a token, it has pushed nothing, shows no error and still polls
  every 2000 ms after any number of such polls (fetch failures, \<open>failed\<close> and \<open>started\<close>
  among them).  A poll that fails before it reads a status changes nothing but the
  console.  A poll that reads a status sets the title to the polled title, or to the
  default text when that is falsy.  A status other than the four the page knows changes
  neither the stage nor the topics, and the stage changes only for a status that starts
  with \<open>topics_found:\<close> or is \<open>search_results_found\<close> or \<open>articles_generated\<close>.
\<close>

theorem poller_leaves_only_on_done:
  assumes "list_all keeps_going outcomes"
  shows "pushed (ticks slug outcomes st) = pushed st
       \<and> interval (ticks slug outcomes st) = interval st
       \<and> error_shown (ticks slug outcomes st) = error_shown st
       \<and> (truthy token \<longrightarrow>
            pushed (ticks slug outcomes (mount token initial_page)) = []
            \<and> interval (ticks slug outcomes (mount token initial_page)) = Some 2000
            \<and> \<not> error_shown (ticks slug outcomes (mount token initial_page)))
       \<and> (\<forall>out. polled_status out = None
            \<longrightarrow> currentStage (pollStatus slug out st) = currentStage st
                \<and> graphTitle (pollStatus slug out st) = graphTitle st
                \<and> topics (pollStatus slug out st) = topics st
                \<and> pushed (pollStatus slug out st) = pushed st
                \<and> interval (pollStatus slug out st) = interval st
                \<and> error_shown (pollStatus slug out st) = error_shown st)
       \<and> (\<forall>out t. polled_title out = Some t \<longrightarrow> graphTitle (pollStatus slug out st) = t)
       \<and> (\<forall>out s. polled_status out = Some (JStr s)
              \<and> \<not> startsWith s (js ''topics_found:'') \<and> s \<noteq> js ''search_results_found''
              \<and> s \<noteq> js ''articles_generated'' \<and> s \<noteq> js ''done''
            \<longrightarrow> currentStage (pollStatus slug out st) = currentStage st
                \<and> topics (pollStatus slug out st) = topics st
                \<and> pushed (pollStatus slug out st) = pushed st)
       \<and> (\<forall>out. currentStage (pollStatus slug out st) \<noteq> currentStage st
            \<longrightarrow> (\<exists>s. polled_status out = Some (JStr s)
                  \<and> (startsWith s (js ''topics_found:'') \<or> s = js ''search_results_found''
                     \<or> s = js ''articles_generated'')))"
proof -
  note fr = ticks_frame [OF assms]
  have m: "pushed (mount token initial_page) = [] \<and> interval (mount token initial_page) = Some 2000
      \<and> \<not> error_shown (mount token initial_page)"
    if "truthy token"
    using that by (simp add: mount_def initial_page_def)
  have f: "currentStage (pollStatus slug out st) = currentStage st
                \<and> graphTitle (pollStatus slug out st) = graphTitle st
                \<and> topics (pollStatus slug out st) = topics st
                \<and> pushed (pollStatus slug out st) = pushed st
                \<and> interval (pollStatus slug out st) = interval st
                \<and> error_shown (pollStatus slug out st) = error_shown st"
    if "polled_status out = None" for out
    using pollStatus_failed [OF that, of slug st] by auto
  have a: "pushed (ticks slug outcomes st) = pushed st
       \<and> interval (ticks slug outcomes st) = interval st
       \<and> error_shown (ticks slug outcomes st) = error_shown st"
    by (rule fr)
  have b: "truthy token \<longrightarrow>
            pushed (ticks slug outcomes (mount token initial_page)) = []
            \<and> interval (ticks slug outcomes (mount token initial_page)) = Some 2000
            \<and> \<not> error_shown (ticks slug outcomes (mount token initial_page))"
    using fr [of slug "mount token initial_page"] m by simp
  show ?thesis
    using a b f pollStatus_title [of _ _ slug st]
      pollStatus_other [of _ _ slug st] pollStatus_stage [of slug _ st]
    by (intro conjI allI impI; blast)
qed

lemma poll_reads:
  "polled_status started_poll = Some (JStr (js ''started''))"
  "polled_status failed_poll = Some (JStr (js ''failed''))"
  "polled_status object_title_poll = Some (JStr (js ''started''))"
  "polled_status None = None"
  "polled_title started_poll = Some (JStr (js ''T''))"
  "polled_title failed_poll = Some (JStr (js ''T''))"
  "polled_title object_title_poll = Some (JObj [(js ''a'', JNum 1)])"
  "polled_title None = None"
  by (simp_all add: polled_status_def polled_title_def started_poll_def failed_poll_def
      object_title_poll_def ok_def get_prop_def title_or_default_def truthy_def js_def)

lemma status_literals:
  "js ''started'' \<noteq> js ''done''" "js ''failed'' \<noteq> js ''done''"
  "js ''failed'' \<noteq> js ''search_results_found''" "js ''failed'' \<noteq> js ''articles_generated''"
  "\<not> startsWith (js ''failed'') (js ''topics_found:'')"
  "js ''started'' \<noteq> js ''search_results_found''" "js ''started'' \<noteq> js ''articles_generated''"
  "\<not> startsWith (js ''started'') (js ''topics_found:'')"
  by (simp_all add: js_def startsWith_def)

text \<open>
  C8 as stated fails at a poll that reads the status \<open>started\<close> with a title that is an
  object: the status is not \<open>done\<close>, yet the render of the title throws, the page is
  unmounted and its interval cleared, and the error screen is shown.
\<close>

theorem poller_counterexample:
  "polled_status object_title_poll = Some (JStr (js ''started''))
   \<and> js ''started'' \<noteq> js ''done''
   \<and> interval (mount (JStr (js ''tok'')) initial_page) = Some 2000
   \<and> interval (ticks (js ''u1'') [object_title_poll] (mount (JStr (js ''tok'')) initial_page))
       = None
   \<and> error_shown (ticks (js ''u1'') [object_title_poll] (mount (JStr (js ''tok'')) initial_page))"
proof -
  have t: "truthy (JStr (js ''tok''))" by (simp add: truthy_def js_def)
  have m: "interval (mount (JStr (js ''tok'')) initial_page) = Some 2000"
    using t by (simp add: mount_def)
  have tt: "truthy (JObj [(js ''a'', JNum 1)])" by (simp add: truthy_def)
  have k: "js ''title'' \<noteq> js ''status''" by (simp add: js_def)
  have p: "pollStatus (js ''u1'') object_title_poll st
      = render (st\<lparr>console := console st @ [Log (JObj [(js ''status'', JStr (js ''started'')),
                               (js ''title'', JObj [(js ''a'', JNum 1)])])],
             graphTitle := JObj [(js ''a'', JNum 1)]\<rparr>)" for st
    using status_literals k
    by (simp add: pollStatus_def object_title_poll_def ok_def get_prop_def Let_def
        title_or_default_def tt on_status_other)
  have "interval (pollStatus (js ''u1'') object_title_poll st) = None
      \<and> error_shown (pollStatus (js ''u1'') object_title_poll st)" for st
    unfolding p by (simp add: render_def)
  then show ?thesis
    using m poll_reads(3) status_literals(1) by (simp add: ticks_def tick_def)
qed

theorem poller_leaves_only_on_done_witness:
  "list_all keeps_going [started_poll, failed_poll, None]
   \<and> pushed (ticks (js ''u1'') [started_poll, failed_poll, None]
        (mount (JStr (js ''tok'')) initial_page)) = []
   \<and> interval (ticks (js ''u1'') [started_poll, failed_poll, None]
        (mount (JStr (js ''tok'')) initial_page)) = Some 2000
   \<and> \<not> error_shown (ticks (js ''u1'') [started_poll, failed_poll, None]
        (mount (JStr (js ''tok'')) initial_page))
   \<and> currentStage (pollStatus (js ''u1'') failed_poll initial_page) = 0
   \<and> graphTitle (pollStatus (js ''u1'') failed_poll initial_page) = JStr (js ''T'')"
proof -
  have h: "list_all keeps_going [started_poll, failed_poll, None]"
    by (simp add: keeps_going_def poll_reads status_literals)
  have t: "truthy (JStr (js ''tok''))" by (simp add: truthy_def js_def)
  have c0: "currentStage initial_page = 0" by (simp add: initial_page_def)
  show ?thesis
    using poller_leaves_only_on_done [OF h, of "js ''u1''" initial_page "JStr (js ''tok'')"]
      h poll_reads status_literals t c0
    by auto
qed

subsection \<open>The chat prompt\<close>

lemma to_integer_quot: "to_integer (5000 / of_nat n) = int (5000 div n)"
proof -
  have "(5000::rat) / of_nat n = of_nat 5000 / of_nat n" by simp
  moreover have "\<lfloor>(of_nat 5000 :: rat) / of_nat n\<rfloor> = int (5000 div n)"
    by (simp only: floor_divide_of_nat_eq)
  moreover have "\<not> (5000::rat) / of_nat n < 0" by simp
  ultimately show ?thesis unfolding to_integer_def by simp
qed

lemma substring_len: "substring s 0 (5000 / of_nat n) = take (5000 div n) s"
proof -
  have z: "to_integer 0 = 0" by (simp add: to_integer_def)
  show ?thesis
    unfolding substring_def Let_def to_integer_quot z
    by (simp add: min_def max_def)
qed

lemma those_map_line:
  "those (map (\<lambda>nd. case g nd of None \<Rightarrow> None | Some nm \<Rightarrow> Some (f nm nd)) nodes) =
   (case those (map g nodes) of
      None \<Rightarrow> None
    | Some names \<Rightarrow> Some (map (\<lambda>(nm, nd). f nm nd) (zip names nodes)))"
  by (induction nodes) (auto split: option.splits)

lemma sum_take_le: "(\<Sum>nd\<leftarrow>nodes. length (take k (content nd))) \<le> length nodes * k"
  by (induction nodes) auto

lemma budget: "(\<Sum>nd\<leftarrow>nodes. length (take (5000 div length nodes) (content nd))) \<le> 5000"
proof -
  have "(\<Sum>nd\<leftarrow>nodes. length (take (5000 div length nodes) (content nd)))
      \<le> length nodes * (5000 div length nodes)"
    by (rule sum_take_le)
  also have "\<dots> \<le> 5000" by simp
  finally show ?thesis .
qed

text \<open>
  C3.  For a payload of \<open>n \<ge> 1\<close> nodes the prompt holds, of each node's content, its first
  \<open>5000 div n\<close> code units and no more (the whole content when it is shorter); the
  contents it holds have at most 5000 code units together; and the node lines stand in
  the prompt in the order of the payload, each built from the node's name and that
  excerpt.
\<close>

theorem staircase_truncation:
  assumes "nodes \<noteq> []"
  shows "included nodes = map (\<lambda>nd. take (5000 div length nodes) (content nd)) nodes
       \<and> sum_list (map length (included nodes)) \<le> 5000
       \<and> build_prompt tostr question nodes =
           (case those (map (\<lambda>nd. template tostr (name nd)) nodes) of
              None \<Rightarrow> None
            | Some names \<Rightarrow>
                (case template tostr question of
                   None \<Rightarrow> None
                 | Some q \<Rightarrow>
                     Some (prompt_head
                           @ join (js ''\<newline>'')
                               (map (\<lambda>(nm, text). js ''- '' @ nm @ js '': '' @ text @ js ''...'')
                                  (zip names (included nodes)))
                           @ prompt_mid @ q @ prompt_tail)))"
proof -
  have inc: "included nodes = map (\<lambda>nd. take (5000 div length nodes) (content nd)) nodes"
    by (simp add: included_def substring_len)
  have "sum_list (map length (included nodes))
      = (\<Sum>nd\<leftarrow>nodes. length (take (5000 div length nodes) (content nd)))"
    unfolding inc by (simp add: comp_def)
  then have b: "sum_list (map length (included nodes)) \<le> 5000"
    using budget [of nodes] by simp
  have z: "map (\<lambda>(nm, nd). js ''- '' @ nm @ js '': '' @ take k (content nd) @ js ''...'') (zip names nodes)
      = map (\<lambda>(nm, text). js ''- '' @ nm @ js '': '' @ text @ js ''...'')
          (zip names (map (\<lambda>nd. take k (content nd)) nodes))" for names k
    by (simp add: zip_map2 comp_def case_prod_beta)
  have "those (map (node_line tostr (5000 / of_nat (length nodes))) nodes) =
      (case those (map (\<lambda>nd. template tostr (name nd)) nodes) of
         None \<Rightarrow> None
       | Some names \<Rightarrow>
           Some (map (\<lambda>(nm, text). js ''- '' @ nm @ js '': '' @ text @ js ''...'')
                   (zip names (included nodes))))"
    unfolding node_line_def substring_len inc
    by (simp add: those_map_line [where g = "\<lambda>nd. template tostr (name nd)"] z
        split: option.splits)
  then have "build_prompt tostr question nodes =
           (case those (map (\<lambda>nd. template tostr (name nd)) nodes) of
              None \<Rightarrow> None
            | Some names \<Rightarrow>
                (case template tostr question of
                   None \<Rightarrow> None
                 | Some q \<Rightarrow>
                     Some (prompt_head
                           @ join (js ''\<newline>'')
                               (map (\<lambda>(nm, text). js ''- '' @ nm @ js '': '' @ text @ js ''...'')
                                  (zip names (included nodes)))
                           @ prompt_mid @ q @ prompt_tail)))"
    by (simp add: build_prompt_def Let_def split: option.splits)
  with inc b show ?thesis by blast
qed

theorem staircase_truncation_witness:
  "three_nodes \<noteq> []
   \<and> included three_nodes = [replicate 1666 0x61, js ''0123456789'', []]
   \<and> sum_list (map length (included three_nodes)) \<le> 5000"
proof -
  have ne: "three_nodes \<noteq> []" by (simp add: three_nodes_def)
  have l: "length three_nodes = 3" by (simp add: three_nodes_def)
  have d: "(5000::nat) div 3 = 1666" by simp
  have j: "length (js ''0123456789'') = 10" by (simp add: js_def)
  have m: "map (\<lambda>nd. take 1666 (content nd)) three_nodes
      = [replicate 1666 0x61, js ''0123456789'', []]"
    by (simp add: three_nodes_def j)
  show ?thesis
    using staircase_truncation [OF ne] ne j unfolding l d m by simp
qed

subsection \<open>The graph-status route\<close>

lemma error_response_neq:
  "error_response ''Failed to fetch graph status'' 500
     \<noteq> error_response ''UUID is required in the request body'' 400"
  by (simp add: error_response_def)

text \<open>
  C6, as amended.  The route answers 400 with the error
  \<open>UUID is required in the request body\<close>, without calling the backend, exactly when the
  request body parses to a value other than \<open>null\<close> whose \<open>uuid\<close> is absent or falsy.
  For a truthy \<open>uuid\<close> (with texts for \<open>uuid\<close> and \<open>auth\<close>) it sends exactly one request,
  the GET of the backend status endpoint of that uuid.  An answer that is not ok comes
  back with the backend's JSON body under the backend's status; an ok answer comes back
  with the backend's JSON body under status 200.  The route answers 500 with
  \<open>Failed to fetch graph status\<close> when the fetch rejects, when the backend's body is not
  JSON, and also, before anything is sent, when the request body does not parse or is
  \<open>null\<close>.
\<close>

theorem graph_status_route:
  "(graph_status_POST B tostr backend rq s
      = (error_response ''UUID is required in the request body'' 400, [], s)
    \<longleftrightarrow> (\<exists>body uuid auth. rq = Some body \<and> get_prop body (js ''uuid'') = Some uuid
           \<and> get_prop body (js ''auth'') = Some auth \<and> \<not> truthy uuid))
   \<and> (rq = Some body \<and> get_prop body (js ''uuid'') = Some uuid \<and> truthy uuid
        \<and> template tostr uuid = Some u
        \<and> get_prop body (js ''auth'') = Some auth \<and> template tostr auth = Some a
      \<longrightarrow> graph_status_POST B tostr backend rq s
            = (status_answer (fst (backend (status_request B u a) s)),
               [status_request B u a],
               snd (backend (status_request B u a) s)))
   \<and> (resp_json response = Some data \<and> \<not> ok response
        \<and> 200 \<le> resp_status response \<and> resp_status response \<le> 599
        \<and> \<not> nullBodyStatus (resp_status response)
      \<longrightarrow> status_answer (Some response)
            = \<lparr>res_status = resp_status response, res_body = data, res_cookies = []\<rparr>)
   \<and> (resp_json response = Some data \<and> ok response
      \<longrightarrow> status_answer (Some response)
            = \<lparr>res_status = 200, res_body = data, res_cookies = []\<rparr>)
   \<and> (resp_json response = None
      \<longrightarrow> status_answer (Some response) = error_response ''Failed to fetch graph status'' 500)
   \<and> status_answer None = error_response ''Failed to fetch graph status'' 500
   \<and> (rq = None \<or> rq = Some JNull
      \<longrightarrow> graph_status_POST B tostr backend rq s
            = (error_response ''Failed to fetch graph status'' 500, [], s))"
proof -
  have a: "graph_status_POST B tostr backend rq s
      = (error_response ''UUID is required in the request body'' 400, [], s)
    \<longleftrightarrow> (\<exists>body uuid auth. rq = Some body \<and> get_prop body (js ''uuid'') = Some uuid
           \<and> get_prop body (js ''auth'') = Some auth \<and> \<not> truthy uuid)"
    using error_response_neq
    by (auto simp: graph_status_POST_def Let_def split: option.splits prod.splits)
  have b: "rq = Some body \<and> get_prop body (js ''uuid'') = Some uuid \<and> truthy uuid
        \<and> template tostr uuid = Some u
        \<and> get_prop body (js ''auth'') = Some auth \<and> template tostr auth = Some a
      \<longrightarrow> graph_status_POST B tostr backend rq s
            = (status_answer (fst (backend (status_request B u a) s)),
               [status_request B u a],
               snd (backend (status_request B u a) s))"
    by (simp add: graph_status_POST_def Let_def)
  have c: "resp_json response = Some data \<and> \<not> ok response
        \<and> 200 \<le> resp_status response \<and> resp_status response \<le> 599
        \<and> \<not> nullBodyStatus (resp_status response)
      \<longrightarrow> status_answer (Some response)
            = \<lparr>res_status = resp_status response, res_body = data, res_cookies = []\<rparr>"
    by (simp add: status_answer_def NextResponse_json_def)
  have d: "resp_json response = Some data \<and> ok response
      \<longrightarrow> status_answer (Some response)
            = \<lparr>res_status = 200, res_body = data, res_cookies = []\<rparr>"
    by (simp add: status_answer_def)
  have e: "resp_json response = None
      \<longrightarrow> status_answer (Some response) = error_response ''Failed to fetch graph status'' 500"
    by (simp add: status_answer_def)
  have f: "status_answer None = error_response ''Failed to fetch graph status'' 500"
    by (simp add: status_answer_def)
  have g: "rq = None \<or> rq = Some JNull
      \<longrightarrow> graph_status_POST B tostr backend rq s
            = (error_response ''Failed to fetch graph status'' 500, [], s)"
    by (auto simp: graph_status_POST_def get_prop_def)
  from a b c d e f g show ?thesis by (intro conjI)
qed

lemma g1_props:
  "get_prop g1_body (js ''uuid'') = Some (JStr (js ''g-1''))"
  "get_prop g1_body (js ''auth'') = Some (JStr (js ''tok''))"
  by (simp_all add: g1_body_def get_prop_def js_def)

lemma demo_status:
  "demo_backend (status_request (js ''http://backend'') (js ''g-1'') (js ''tok'')) ()
     = (Some \<lparr>resp_status = 201,
              resp_json = Some (JObj [(js ''status'', JStr (js ''started''))])\<rparr>, ())"
  by (simp add: demo_backend_def status_request_def js_def)

text \<open>
  C6 as stated fails twice: the backend answers 201 and the route answers 200, not the
  backend's status; and a request whose body does not parse is answered 500 although
  nothing was forwarded.
\<close>

theorem graph_status_counterexample:
  "fst (demo_backend (status_request (js ''http://backend'') (js ''g-1'') (js ''tok'')) ())
     = Some \<lparr>resp_status = 201, resp_json = Some (JObj [(js ''status'', JStr (js ''started''))])\<rparr>
   \<and> graph_status_POST (js ''http://backend'') no_ToString demo_backend (Some g1_body) ()
     = (\<lparr>res_status = 200, res_body = JObj [(js ''status'', JStr (js ''started''))],
          res_cookies = []\<rparr>,
        [status_request (js ''http://backend'') (js ''g-1'') (js ''tok'')], ())
   \<and> graph_status_POST (js ''http://backend'') no_ToString demo_backend None ()
     = (error_response ''Failed to fetch graph status'' 500, [], ())"
  by (simp add: graph_status_POST_def g1_props template_def truthy_def Let_def demo_status
      status_answer_def ok_def) (simp add: js_def)

theorem graph_status_route_witness:
  "graph_status_POST (js ''http://backend'') no_ToString demo_backend (Some g1_body) ()
     = (\<lparr>res_status = 200, res_body = JObj [(js ''status'', JStr (js ''started''))],
          res_cookies = []\<rparr>,
        [status_request (js ''http://backend'') (js ''g-1'') (js ''tok'')], ())
   \<and> graph_status_POST (js ''http://backend'') no_ToString demo_backend (Some (JObj [])) ()
     = (error_response ''UUID is required in the request body'' 400, [], ())
   \<and> status_answer (Some \<lparr>resp_status = 404, resp_json = Some (JObj [])\<rparr>)
     = \<lparr>res_status = 404, res_body = JObj [], res_cookies = []\<rparr>"
proof -
  note t = graph_status_route [of "js ''http://backend''" no_ToString demo_backend _ "()"]
  have t1: "truthy (JStr (js ''g-1''))" by (simp add: truthy_def js_def)
  have tm: "template no_ToString (JStr x) = Some x" for x by (simp add: template_def)
  have ok1: "ok \<lparr>resp_status = 201, resp_json = Some (JObj [(js ''status'', JStr (js ''started''))])\<rparr>"
    by (simp add: ok_def)
  have e: "get_prop (JObj []) k = Some JUndefined" for k by (simp add: get_prop_def)
  have f: "\<not> truthy JUndefined" by (simp add: truthy_def)
  have n: "\<not> ok \<lparr>resp_status = 404, resp_json = Some (JObj [])\<rparr>"
    "\<not> nullBodyStatus 404"
    by (simp_all add: ok_def nullBodyStatus_def)
  have 1: "graph_status_POST (js ''http://backend'') no_ToString demo_backend (Some g1_body) ()
     = (\<lparr>res_status = 200, res_body = JObj [(js ''status'', JStr (js ''started''))],
          res_cookies = []\<rparr>,
        [status_request (js ''http://backend'') (js ''g-1'') (js ''tok'')], ())"
    using t [of "Some g1_body" g1_body "JStr (js ''g-1'')" "js ''g-1''" "JStr (js ''tok'')" "js ''tok''"
        "\<lparr>resp_status = 201, resp_json = Some (JObj [(js ''status'', JStr (js ''started''))])\<rparr>"
        "JObj [(js ''status'', JStr (js ''started''))]"]
      g1_props t1 tm ok1 demo_status
    by simp
  have 2: "graph_status_POST (js ''http://backend'') no_ToString demo_backend (Some (JObj [])) ()
     = (error_response ''UUID is required in the request body'' 400, [], ())"
    using t [of "Some (JObj [])"] e f by blast
  have 3: "status_answer (Some \<lparr>resp_status = 404, resp_json = Some (JObj [])\<rparr>)
     = \<lparr>res_status = 404, res_body = JObj [], res_cookies = []\<rparr>"
    using t [of None _ _ _ _ _ "\<lparr>resp_status = 404, resp_json = Some (JObj [])\<rparr>" "JObj []"] n
    by simp
  from 1 2 3 show ?thesis by blast
qed

subsection \<open>The create-knowledgebase route\<close>

lemma demo_me:
  "demo_backend (me_request (js ''http://backend'') tok) ()
     = (Some \<lparr>resp_status = 200, resp_json = Some (JObj [(js ''id'', JNum 7)])\<rparr>, ())"
  by (simp add: demo_backend_def me_request_def js_def)

lemma demo_create:
  "demo_backend (create_request (js ''http://backend'') tok t u) ()
     = (Some \<lparr>resp_status = 200, resp_json = Some (JObj [(js ''uuid'', JStr (js ''g-1''))])\<rparr>, ())"
  by (simp add: demo_backend_def create_request_def js_def)

lemma submit_text:
  "get_prop (handleSubmit_body (js ''quantum computing'') (js ''pioneer'')) (js ''text'')
     = Some (JStr (js ''quantum computing''))"
  "get_prop (handleSubmit_body (js ''quantum computing'') (js ''pioneer'')) (js ''mode'')
     = Some (JStr (js ''pioneer''))"
  by (simp_all add: handleSubmit_body_def json_object_def get_prop_def js_def)

text \<open>
  C1 at the body the home page posts for the query \<open>quantum computing\<close> in mode
  \<open>pioneer\<close>, authorized: the body carries the mode, the route answers with the
  backend's uuid, and the request it forwards holds \<open>title\<close> and \<open>user_id\<close> only; the
  mode is not forwarded.
\<close>

theorem createGraph_drops_mode:
  "get_prop (handleSubmit_body (js ''quantum computing'') (js ''pioneer'')) (js ''mode'')
     = Some (JStr (js ''pioneer''))
   \<and> generate_knowledgebase_POST (js ''http://backend'') demo_backend (Some (js ''Bearer tok''))
       (Some (handleSubmit_body (js ''quantum computing'') (js ''pioneer''))) ()
     = (\<lparr>res_status = 200, res_body = JObj [(js ''uuid'', JStr (js ''g-1''))], res_cookies = []\<rparr>,
        [me_request (js ''http://backend'') (js ''Bearer tok''),
         create_request (js ''http://backend'') (js ''Bearer tok'')
           (JStr (js ''quantum computing'')) (JNum 7)],
        ())
   \<and> body_keys (create_request (js ''http://backend'') (js ''Bearer tok'')
           (JStr (js ''quantum computing'')) (JNum 7)) = [js ''title'', js ''user_id'']
   \<and> js ''mode'' \<notin> set (body_keys (create_request (js ''http://backend'') (js ''Bearer tok'')
           (JStr (js ''quantum computing'')) (JNum 7)))"
proof -
  have tok: "js ''Bearer tok'' \<noteq> []" by (simp add: js_def)
  have tr: "truthy (JStr (js ''quantum computing''))" by (simp add: truthy_def js_def)
  have idp: "get_prop (JObj [(js ''id'', JNum 7)]) (js ''id'') = Some (JNum 7)"
    by (simp add: get_prop_def)
  have run: "generate_knowledgebase_POST (js ''http://backend'') demo_backend (Some (js ''Bearer tok''))
       (Some (handleSubmit_body (js ''quantum computing'') (js ''pioneer''))) ()
     = (\<lparr>res_status = 200, res_body = JObj [(js ''uuid'', JStr (js ''g-1''))], res_cookies = []\<rparr>,
        [me_request (js ''http://backend'') (js ''Bearer tok''),
         create_request (js ''http://backend'') (js ''Bearer tok'')
           (JStr (js ''quantum computing'')) (JNum 7)],
        ())"
    by (simp add: generate_knowledgebase_POST_def create_graph_def Let_def tok tr idp demo_me
        demo_create submit_text ok_def create_answer_def)
  have keys: "body_keys (create_request (js ''http://backend'') (js ''Bearer tok'')
           (JStr (js ''quantum computing'')) (JNum 7)) = [js ''title'', js ''user_id'']"
    by (simp add: body_keys_def create_request_def json_object_def)
  have "js ''mode'' \<notin> set [js ''title'', js ''user_id'']" by (simp add: js_def)
  with run keys submit_text(2) show ?thesis by simp
qed

subsection \<open>The auth route\<close>

lemma get_prop_Some_Str:
  "get_prop body k = Some (JStr x) \<Longrightarrow> get_prop body k' \<noteq> None"
  by (cases body) (simp_all add: get_prop_def)

lemma action_literals:
  "js ''logout'' \<noteq> js ''login''" "js ''logout'' \<noteq> js ''register''"
  by (simp_all add: js_def)

text \<open>
  C10.  A POST whose body has the action \<open>logout\<close>, whatever else the body holds, is
  answered with status 200 and the message \<open>Logout successful\<close>; the response deletes
  the cookies \<open>token\<close> and \<open>username\<close> and touches no other cookie; no request is sent to
  the backend and the backend's state is as before.
\<close>

theorem logout_is_local:
  assumes "get_prop body (js ''action'') = Some (JStr (js ''logout''))"
  shows "auth_POST production BACKEND_URL tostr backend (Some body) s =
           (\<lparr>res_status = 200,
             res_body = JObj [(js ''message'', JStr (js ''Logout successful''))],
             res_cookies = [DeleteCookie (js ''token''), DeleteCookie (js ''username'')]\<rparr>,
            [], s)"
proof -
  obtain u p e where "get_prop body (js ''username'') = Some u"
    "get_prop body (js ''password'') = Some p" "get_prop body (js ''email'') = Some e"
    using get_prop_Some_Str [OF assms] by (meson option.exhaust)
  with assms show ?thesis
    by (simp add: auth_POST_def action_literals)
qed

theorem logout_is_local_witness:
  "get_prop logout_body (js ''action'') = Some (JStr (js ''logout''))
   \<and> auth_POST True (js ''http://backend'') no_ToString demo_backend (Some logout_body) () =
           (\<lparr>res_status = 200,
             res_body = JObj [(js ''message'', JStr (js ''Logout successful''))],
             res_cookies = [DeleteCookie (js ''token''), DeleteCookie (js ''username'')]\<rparr>,
            [], ())"
proof -
  have a: "get_prop logout_body (js ''action'') = Some (JStr (js ''logout''))"
    by (simp add: logout_body_def get_prop_def js_def)
  show ?thesis
    using logout_is_local [OF a, of True "js ''http://backend''" no_ToString demo_backend "()"] a
    by simp
qed

subsection \<open>The agent stream\<close>

lemma split_on_last_no_sep: "c \<notin> set (last (split_on c xs))"
  by (induction xs) (auto split: list.splits simp: split_on_ne)

lemma split_on_append:
  "split_on c (xs @ ys) = butlast (split_on c xs) @ split_on c (last (split_on c xs) @ ys)"
proof (induction xs)
  case Nil
  then show ?case by simp
next
  case (Cons x xs)
  show ?case
  proof (cases "x = c")
    case True
    with Cons show ?thesis by (simp add: split_on_ne)
  next
    case False
    obtain y ys' where s: "split_on c xs = y # ys'"
      using split_on_ne [of c xs] by (cases "split_on c xs") auto
    show ?thesis
    proof (cases ys')
      case Nil
      with s False Cons show ?thesis by simp
    next
      case (Cons z zs)
      with s False Cons.IH show ?thesis
        by (simp split: list.splits)
    qed
  qed
qed

lemma map_filter_append: "List.map_filter f (xs @ ys) = List.map_filter f xs @ List.map_filter f ys"
  by (simp add: List.map_filter_def)

lemma read_loop_lines:
  "0x0A \<notin> set buffer \<Longrightarrow>
   read_loop parse tostr chunks buffer shown =
     (shown @ List.map_filter (on_line parse tostr) (butlast (split_on 0x0A (buffer @ concat chunks))),
      last (split_on 0x0A (buffer @ concat chunks)))"
proof (induction chunks arbitrary: buffer shown)
  case Nil
  then show ?case by (simp add: split_on_no_sep List.map_filter_def)
next
  case (Cons chunk chunks)
  let ?lines = "split_on 0x0A (buffer @ chunk)"
  have nl: "0x0A \<notin> set (last ?lines)" by (rule split_on_last_no_sep)
  have sp: "split_on 0x0A (buffer @ concat (chunk # chunks))
      = butlast ?lines @ split_on 0x0A (last ?lines @ concat chunks)"
    using split_on_append [of "0x0A" "buffer @ chunk" "concat chunks"] by simp
  have bl: "butlast (split_on 0x0A (buffer @ concat (chunk # chunks)))
      = butlast ?lines @ butlast (split_on 0x0A (last ?lines @ concat chunks))"
    unfolding sp by (simp add: butlast_append split_on_ne)
  have la: "last (split_on 0x0A (buffer @ concat (chunk # chunks)))
      = last (split_on 0x0A (last ?lines @ concat chunks))"
    unfolding sp by (simp add: split_on_ne)
  show ?case
    unfolding bl la using Cons.IH [OF nl]
    by (simp add: Let_def map_filter_append)
qed

lemma handleSubmit_flag: "\<not> isStreaming st \<Longrightarrow> \<not> isStreaming (handleSubmit parse tostr outcome st)"
  by (simp add: handleSubmit_def Let_def split: stream_outcome.splits option.splits
      stream_end.splits prod.splits)

lemma handleSubmit_closed:
  "trim (prompt st) \<noteq> [] \<Longrightarrow> \<not> isStreaming st \<Longrightarrow>
   thoughts (handleSubmit parse tostr (Answered True (Some (chunks, Closed))) st)
     = List.map_filter (on_line parse tostr) (butlast (split_on 0x0A (concat chunks)))"
  using read_loop_lines [of "[]" parse tostr chunks "[]"]
  by (simp add: handleSubmit_def Let_def)

lemma type_prefix_other:
  "ty \<noteq> JStr (js ''thought'') \<Longrightarrow> ty \<noteq> JStr (js ''action'') \<Longrightarrow>
   ty \<noteq> JStr (js ''observation'') \<Longrightarrow> ty \<noteq> JStr (js ''error'') \<Longrightarrow> type_prefix ty = []"
  by (simp add: type_prefix_def)

lemma type_prefix_known:
  "type_prefix (JStr (js ''thought'')) = [0xD83E, 0xDD14, 0x20]"
  "type_prefix (JStr (js ''action'')) = [0xD83D, 0xDD0D, 0x20]"
  "type_prefix (JStr (js ''observation'')) = [0xD83D, 0xDCDD, 0x20]"
  "type_prefix (JStr (js ''error'')) = [0x274C, 0x20]"
  by (simp_all add: type_prefix_def js_def)

text \<open>
  C7, as amended.  When the stream closes, the thoughts shown are the messages of its
  complete lines (those followed by a line feed, whatever the chunking), in the order
  of the lines, at most one message per line.  A line that is not blank and parses to a
  value other than \<open>null\<close> (whose content has a string conversion) appends exactly one
  message: the content and a line feed, prefixed by the thinking face for type
  \<open>thought\<close>, the magnifying glass for \<open>action\<close>, the memo for \<open>observation\<close>, the cross
  mark for \<open>error\<close>, and by nothing for any other type.  A blank line, a line that does
  not parse and a line that parses to \<open>null\<close> append nothing, and the lines after them
  are still handled.  The streaming flag is off when \<open>handleSubmit\<close> ends, however the
  stream ended.
\<close>

theorem stream_consumption:
  "(trim (prompt st) \<noteq> [] \<and> \<not> isStreaming st \<longrightarrow>
      thoughts (handleSubmit parse tostr (Answered True (Some (chunks, Closed))) st)
        = List.map_filter (on_line parse tostr) (butlast (split_on 0x0A (concat chunks))))
   \<and> (\<not> isStreaming st \<longrightarrow> \<not> isStreaming (handleSubmit parse tostr outcome st))
   \<and> (trim line \<noteq> [] \<and> parse line = Some data \<and> get_prop data (js ''type'') = Some ty
        \<and> get_prop data (js ''content'') = Some c \<and> template tostr c = Some text
      \<longrightarrow> on_line parse tostr line = Some (type_prefix ty @ text @ [0x0A]))
   \<and> (trim line = [] \<or> parse line = None \<or> parse line = Some JNull
      \<longrightarrow> on_line parse tostr line = None)
   \<and> type_prefix (JStr (js ''thought'')) = [0xD83E, 0xDD14, 0x20]
   \<and> type_prefix (JStr (js ''action'')) = [0xD83D, 0xDD0D, 0x20]
   \<and> type_prefix (JStr (js ''observation'')) = [0xD83D, 0xDCDD, 0x20]
   \<and> type_prefix (JStr (js ''error'')) = [0x274C, 0x20]
   \<and> (ty \<noteq> JStr (js ''thought'') \<and> ty \<noteq> JStr (js ''action'')
        \<and> ty \<noteq> JStr (js ''observation'') \<and> ty \<noteq> JStr (js ''error'')
      \<longrightarrow> type_prefix ty = [])"
proof -
  have a: "trim line \<noteq> [] \<and> parse line = Some data \<and> get_prop data (js ''type'') = Some ty
        \<and> get_prop data (js ''content'') = Some c \<and> template tostr c = Some text
      \<longrightarrow> on_line parse tostr line = Some (type_prefix ty @ text @ [0x0A])"
    by (simp add: on_line_def formattedMessage_def)
  have b: "trim line = [] \<or> parse line = None \<or> parse line = Some JNull
      \<longrightarrow> on_line parse tostr line = None"
    by (auto simp: on_line_def formattedMessage_def get_prop_def)
  show ?thesis
    using a b handleSubmit_closed [of st parse tostr chunks] handleSubmit_flag [of st parse tostr outcome]
      type_prefix_known type_prefix_other [of ty]
    by (intro conjI impI) blast+
qed

lemma trim_null: "trim (js ''null'') = js ''null''"
  by (simp add: trim_def js_def whiteSpace_def)

lemma idle_ready: "trim (prompt idle) \<noteq> []" "\<not> isStreaming idle"
  by (simp_all add: idle_def trim_def js_def whiteSpace_def)

text \<open>
  C7 as stated fails at the stream \<open>null\<close>, line feed: the line is complete, not blank
  and parses as JSON, and no message is shown (reading \<open>data.type\<close> of \<open>null\<close> throws
  inside the inner \<open>try\<close>).
\<close>

theorem stream_consumption_counterexample:
  "trim (js ''null'') \<noteq> []
   \<and> parse_examples (js ''null'') = Some JNull
   \<and> butlast (split_on 0x0A (js ''null'' @ [0x0A])) = [js ''null'']
   \<and> thoughts (handleSubmit parse_examples no_ToString
        (Answered True (Some ([js ''null'' @ [0x0A]], Closed))) idle) = []"
proof -
  have t: "trim (js ''null'') \<noteq> []" by (simp add: trim_null) (simp add: js_def)
  have p: "parse_examples (js ''null'') = Some JNull" by (simp add: parse_examples_def)
  have s: "split_on 0x0A (js ''null'' @ [0x0A]) = [js ''null'', []]" by (simp add: js_def)
  have o: "on_line parse_examples no_ToString (js ''null'') = None"
    using t p by (simp add: on_line_def formattedMessage_def get_prop_def)
  have "thoughts (handleSubmit parse_examples no_ToString
        (Answered True (Some ([js ''null'' @ [0x0A]], Closed))) idle) = []"
    using idle_ready
    by (simp add: handleSubmit_def Let_def s o List.map_filter_def)
  with t p s show ?thesis by simp
qed

lemma example_lines:
  "butlast (split_on 0x0A (concat example_chunks))
     = [event_text ''thought'' ''plan'', js ''null'', js ''oops'', event_text ''done'' ''ok'']"
  by (simp add: example_chunks_def event_text_def quoted_def js_def)

lemma example_on_line:
  "on_line parse_examples no_ToString (event_text ''thought'' ''plan'')
     = Some ([0xD83E, 0xDD14, 0x20] @ js ''plan'' @ [0x0A])"
  "on_line parse_examples no_ToString (js ''null'') = None"
  "on_line parse_examples no_ToString (js ''oops'') = None"
  "on_line parse_examples no_ToString (event_text ''done'' ''ok'') = Some (js ''ok'' @ [0x0A])"
  by (simp_all add: on_line_def parse_examples_def formattedMessage_def get_prop_def
      template_def type_prefix_def trim_def whiteSpace_def event_text_def quoted_def js_def)

theorem stream_consumption_witness:
  "trim (prompt idle) \<noteq> [] \<and> \<not> isStreaming idle
   \<and> thoughts (handleSubmit parse_examples no_ToString
        (Answered True (Some (example_chunks, Closed))) idle)
     = [[0xD83E, 0xDD14, 0x20] @ js ''plan'' @ [0x0A], js ''ok'' @ [0x0A]]
   \<and> \<not> isStreaming (handleSubmit parse_examples no_ToString
        (Answered True (Some (example_chunks, Closed))) idle)"
  using stream_consumption [of idle parse_examples no_ToString example_chunks
      "Answered True (Some (example_chunks, Closed))"]
    idle_ready
  by (simp add: example_lines example_on_line List.map_filter_def)

subsection \<open>The citation markers\<close>

lemma bracket_not_digit: "\<not> digit 0x5B" "\<not> digit 0x5D"
  by (simp_all add: digit_def)

lemma match_marker_head:
  "ds \<noteq> [] \<Longrightarrow> list_all digit ds \<Longrightarrow> match_marker (marker ds @ post) = Some (ds, post)"
proof -
  assume ne: "ds \<noteq> []" and dg: "list_all digit ds"
  have tw: "takeWhile digit (ds @ 0x5D # post) = ds"
    using dg bracket_not_digit by (simp add: takeWhile_append2 list_all_iff)
  have dw: "dropWhile digit (ds @ 0x5D # post) = 0x5D # post"
    using dg bracket_not_digit by (simp add: dropWhile_append2 list_all_iff)
  show ?thesis
    using ne by (simp add: match_marker_def marker_def tw dw)
qed

lemma match_marker_extend:
  assumes "match_marker p = None" and "p \<noteq> []"
  shows "match_marker (p @ 0x5B # rest) = None"
proof (cases p)
  case Nil
  with assms show ?thesis by simp
next
  case (Cons a q)
  show ?thesis
  proof (cases q)
    case Nil
    with Cons show ?thesis by (simp add: match_marker_def)
  next
    case (Cons b t)
    note q = this
    show ?thesis
    proof (cases "a = 0x5B \<and> b = 0x53")
      case False
      with \<open>p = a # q\<close> q show ?thesis by (auto simp: match_marker_def)
    next
      case True
      show ?thesis
      proof (cases "\<forall>x \<in> set t. digit x")
        case True
        then have "dropWhile digit (t @ 0x5B # rest) = 0x5B # rest"
          using bracket_not_digit by (simp add: dropWhile_append2)
        with \<open>p = a # q\<close> q show ?thesis by (simp add: match_marker_def)
      next
        case False
        then obtain x where x: "x \<in> set t" "\<not> digit x" by blast
        have tw: "takeWhile digit (t @ 0x5B # rest) = takeWhile digit t"
          using x by (rule takeWhile_append1)
        have dw: "dropWhile digit (t @ 0x5B # rest) = dropWhile digit t @ 0x5B # rest"
          using x by (rule dropWhile_append1)
        have ne: "dropWhile digit t \<noteq> []"
          using x by (auto simp: dropWhile_eq_Nil_conv)
        then obtain e r where er: "dropWhile digit t = e # r" by (cases "dropWhile digit t") auto
        from assms(1) \<open>p = a # q\<close> q True er
        have "\<not> (takeWhile digit t \<noteq> [] \<and> e = 0x5D)"
          by (auto simp: match_marker_def split: if_splits)
        with \<open>p = a # q\<close> q True er show ?thesis
          by (simp add: match_marker_def tw dw)
      qed
    qed
  qed
qed

lemma marker_free_Nil: "marker_free []"
  by (simp add: marker_free_def)

lemma marker_free_iff:
  "marker_free s \<longleftrightarrow> (\<forall>i<length s. match_marker (drop i s) = None)"
  by (auto simp: marker_free_def list_all_iff)

lemma marker_free_Cons:
  "marker_free (c # s) \<longleftrightarrow> match_marker (c # s) = None \<and> marker_free s"
  by (auto simp: marker_free_iff less_Suc_eq_0_disj)

lemma marker_is_bracket: "marker ds @ post = 0x5B # 0x53 # ds @ 0x5D # post"
  by (simp add: marker_def)

lemma replace_markers_free: "marker_free s \<Longrightarrow> replace_markers f s = Some (s, [])"
  by (induction s) (auto simp: marker_free_Cons)

lemma replace_markers_first:
  assumes "marker_free pre" and "ds \<noteq> []" and "list_all digit ds"
  shows "replace_markers f (pre @ marker ds @ post) =
           (case f (marker ds) ds of
              None \<Rightarrow> None
            | Some (piece, reads1) \<Rightarrow>
                (case replace_markers f post of
                   None \<Rightarrow> None
                 | Some (out, reads2) \<Rightarrow> Some (pre @ piece @ out, reads1 @ reads2)))"
  using assms(1)
proof (induction pre)
  case Nil
  have "replace_markers f (marker ds @ post) =
      (case match_marker (marker ds @ post) of
        None \<Rightarrow>
          (case replace_markers f (0x53 # ds @ 0x5D # post) of
             None \<Rightarrow> None
           | Some (out, reads) \<Rightarrow> Some (0x5B # out, reads))
      | Some (ds, rest) \<Rightarrow>
          (case f (marker ds) ds of
             None \<Rightarrow> None
           | Some (piece, reads1) \<Rightarrow>
               (case replace_markers f rest of
                  None \<Rightarrow> None
                | Some (out, reads2) \<Rightarrow> Some (piece @ out, reads1 @ reads2))))"
    unfolding marker_is_bracket by (subst replace_markers.simps) simp
  then show ?case
    by (simp add: match_marker_head [OF assms(2,3)] split: option.splits prod.splits)
next
  case (Cons c pre)
  then have m: "match_marker (c # pre) = None" and fr: "marker_free pre"
    by (simp_all add: marker_free_Cons)
  have "match_marker ((c # pre) @ 0x5B # 0x53 # ds @ 0x5D # post) = None"
    using m by (rule match_marker_extend) simp
  then have "match_marker (c # pre @ marker ds @ post) = None"
    by (simp add: marker_is_bracket)
  then show ?case
    using Cons.IH [OF fr] by (simp split: option.splits prod.splits)
qed

lemma replace_markers_total:
  assumes "\<forall>m ds. \<exists>piece reads. f m ds = Some (piece, reads) \<and> (\<forall>i \<in> set reads. P i)"
  shows "\<exists>out reads. replace_markers f s = Some (out, reads) \<and> (\<forall>i \<in> set reads. P i)"
  using assms
proof (induction f s rule: replace_markers.induct)
  case (1 f)
  then show ?case by simp
next
  case (2 f c cs)
  show ?case
  proof (cases "match_marker (c # cs)")
    case None
    with 2(1) 2(3) show ?thesis by auto
  next
    case (Some a)
    obtain ds rest where a: "a = (ds, rest)" by (cases a)
    obtain piece reads1 where f: "f (marker ds) ds = Some (piece, reads1)" "\<forall>i \<in> set reads1. P i"
      using 2(3) by blast
    from 2(2) [OF Some [unfolded a] refl f(1) refl 2(3)]
    obtain out reads2 where "replace_markers f rest = Some (out, reads2)" "\<forall>i \<in> set reads2. P i"
      by blast
    with Some a f show ?thesis by auto
  qed
qed

lemma metadata_field_truthy:
  "truthy (metadata_of chunk) \<Longrightarrow> metadata_field chunk k = Some (opt_prop (metadata_of chunk) k)"
  by (auto simp: metadata_of_def metadata_field_def opt_prop_def get_prop_def truthy_def
      split: jsval.splits option.splits)

lemma array_get_in: "0 \<le> i \<Longrightarrow> i < int (length xs) \<Longrightarrow> array_get xs i = xs ! nat i"
  by (simp add: array_get_def)

lemma replacer_eq:
  "replacer badge chunks m ds =
     Some (if 1 \<le> parseInt ds \<and> parseInt ds - 1 < int (length chunks)
              \<and> truthy (metadata_of (chunks ! nat (parseInt ds - 1)))
           then (badge (parseInt ds - 1)
                   (opt_prop (metadata_of (chunks ! nat (parseInt ds - 1))) (js ''title''))
                   (opt_prop (metadata_of (chunks ! nat (parseInt ds - 1))) (js ''url'')),
                 [parseInt ds - 1, parseInt ds - 1, parseInt ds - 1])
           else (m, if 1 \<le> parseInt ds \<and> parseInt ds - 1 < int (length chunks)
                    then [parseInt ds - 1] else []))"
proof (cases "1 \<le> parseInt ds \<and> parseInt ds - 1 < int (length chunks)")
  case False
  then show ?thesis by (auto simp: replacer_def Let_def)
next
  case True
  then have g: "array_get chunks (parseInt ds - 1) = chunks ! nat (parseInt ds - 1)"
    by (simp add: array_get_in)
  show ?thesis
    using True by (simp add: replacer_def Let_def g metadata_field_truthy)
qed

lemma replacer_reads:
  "\<exists>piece reads. replacer badge chunks m ds = Some (piece, reads)
      \<and> (\<forall>i \<in> set reads. 0 \<le> i \<and> i < int (length chunks))"
  unfolding replacer_eq by auto

lemma processedHtml_total:
  "\<exists>out reads. processedHtml badge chunks html = Some (out, reads)
       \<and> (\<forall>i \<in> set reads. 0 \<le> i \<and> i < int (length chunks))"
  unfolding processedHtml_def
  by (rule replace_markers_total) (simp add: replacer_reads)

lemma processedHtml_first:
  assumes "marker_free pre" "ds \<noteq> []" "list_all digit ds"
    "map_option fst (processedHtml badge chunks post) = Some out'"
  shows "map_option fst (processedHtml badge chunks (pre @ marker ds @ post))
            = Some (pre
                    @ (if 1 \<le> parseInt ds \<and> parseInt ds - 1 < int (length chunks)
                          \<and> truthy (metadata_of (chunks ! nat (parseInt ds - 1)))
                       then badge (parseInt ds - 1)
                              (opt_prop (metadata_of (chunks ! nat (parseInt ds - 1))) (js ''title''))
                              (opt_prop (metadata_of (chunks ! nat (parseInt ds - 1))) (js ''url''))
                       else marker ds)
                    @ out')"
proof -
  from assms(4) obtain reads' where p: "replace_markers (replacer badge chunks) post = Some (out', reads')"
    by (auto simp: processedHtml_def)
  show ?thesis
    unfolding processedHtml_def replace_markers_first [OF assms(1,2,3)] replacer_eq p
    by simp
qed

lemma renderContent_fst:
  "map_option fst (renderContent markdown sanitize badge chunks part)
     = map_option sanitize (map_option fst (processedHtml badge chunks (markdown part)))"
  by (simp add: renderContent_def split: option.splits prod.splits)

text \<open>
  C4, as amended.  For every part and every chunk list \<open>renderContent\<close> returns (no
  read throws), and every read of \<open>chunks\<close> it makes is at an index from 0 below the length
  of the list.  The markers it replaces are those of the HTML that the markdown
  rendering of the part gives.  HTML without a marker is sanitized as it is.  The first
  marker \<open>[Sk]\<close> of the HTML, after a piece without markers, is replaced by the badge for
  index \<open>k - 1\<close>, built from the title and url of the metadata of chunk \<open>k - 1\<close>, exactly
  when \<open>0 \<le> k - 1 < length\<close> and \<open>chunks[k - 1]?.content?.metadata\<close> is truthy; otherwise
  the marker stays verbatim, an index out of range included; the piece before it is
  copied, the rest of the HTML is treated the same way, and the result is sanitized.
\<close>

theorem citation_rendering:
  "(\<exists>out reads. renderContent markdown sanitize badge chunks part = Some (out, reads)
       \<and> (\<forall>i \<in> set reads. 0 \<le> i \<and> i < int (length chunks)))
   \<and> (marker_free (markdown part)
      \<longrightarrow> renderContent markdown sanitize badge chunks part = Some (sanitize (markdown part), []))
   \<and> (markdown part = pre @ marker ds @ post \<and> marker_free pre \<and> ds \<noteq> [] \<and> list_all digit ds
        \<and> map_option fst (processedHtml badge chunks post) = Some out'
      \<longrightarrow> map_option fst (renderContent markdown sanitize badge chunks part)
            = Some (sanitize
                     (pre
                      @ (if 1 \<le> parseInt ds \<and> parseInt ds - 1 < int (length chunks)
                            \<and> truthy (metadata_of (chunks ! nat (parseInt ds - 1)))
                         then badge (parseInt ds - 1)
                                (opt_prop (metadata_of (chunks ! nat (parseInt ds - 1))) (js ''title''))
                                (opt_prop (metadata_of (chunks ! nat (parseInt ds - 1))) (js ''url''))
                         else marker ds)
                      @ out')))
   \<and> (marker_free html \<longrightarrow> processedHtml badge chunks html = Some (html, []))
   \<and> (marker_free pre \<and> ds \<noteq> [] \<and> list_all digit ds
        \<and> map_option fst (processedHtml badge chunks post) = Some out'
      \<longrightarrow> map_option fst (processedHtml badge chunks (pre @ marker ds @ post))
            = Some (pre
                    @ (if 1 \<le> parseInt ds \<and> parseInt ds - 1 < int (length chunks)
                          \<and> truthy (metadata_of (chunks ! nat (parseInt ds - 1)))
                       then badge (parseInt ds - 1)
                              (opt_prop (metadata_of (chunks ! nat (parseInt ds - 1))) (js ''title''))
                              (opt_prop (metadata_of (chunks ! nat (parseInt ds - 1))) (js ''url''))
                       else marker ds)
                    @ out'))"
proof -
  have a: "\<exists>out reads. renderContent markdown sanitize badge chunks part = Some (out, reads)
       \<and> (\<forall>i \<in> set reads. 0 \<le> i \<and> i < int (length chunks))"
    using processedHtml_total [of badge chunks "markdown part"]
    by (auto simp: renderContent_def)
  have d: "marker_free html \<longrightarrow> processedHtml badge chunks html = Some (html, [])" for html
    by (simp add: processedHtml_def replace_markers_free)
  have b: "marker_free (markdown part)
      \<longrightarrow> renderContent markdown sanitize badge chunks part = Some (sanitize (markdown part), [])"
    using d [of "markdown part"] by (simp add: renderContent_def)
  have c: "markdown part = pre @ marker ds @ post \<and> marker_free pre \<and> ds \<noteq> [] \<and> list_all digit ds
        \<and> map_option fst (processedHtml badge chunks post) = Some out'
      \<longrightarrow> map_option fst (renderContent markdown sanitize badge chunks part)
            = Some (sanitize
                     (pre
                      @ (if 1 \<le> parseInt ds \<and> parseInt ds - 1 < int (length chunks)
                            \<and> truthy (metadata_of (chunks ! nat (parseInt ds - 1)))
                         then badge (parseInt ds - 1)
                                (opt_prop (metadata_of (chunks ! nat (parseInt ds - 1))) (js ''title''))
                                (opt_prop (metadata_of (chunks ! nat (parseInt ds - 1))) (js ''url''))
                         else marker ds)
                      @ out'))"
  proof
    assume h: "markdown part = pre @ marker ds @ post \<and> marker_free pre \<and> ds \<noteq> []
        \<and> list_all digit ds \<and> map_option fst (processedHtml badge chunks post) = Some out'"
    then have "map_option fst (processedHtml badge chunks (markdown part))
            = Some (pre
                    @ (if 1 \<le> parseInt ds \<and> parseInt ds - 1 < int (length chunks)
                          \<and> truthy (metadata_of (chunks ! nat (parseInt ds - 1)))
                       then badge (parseInt ds - 1)
                              (opt_prop (metadata_of (chunks ! nat (parseInt ds - 1))) (js ''title''))
                              (opt_prop (metadata_of (chunks ! nat (parseInt ds - 1))) (js ''url''))
                       else marker ds)
                    @ out')"
      using processedHtml_first [of pre ds badge chunks post out'] by metis
    then show "map_option fst (renderContent markdown sanitize badge chunks part)
            = Some (sanitize
                     (pre
                      @ (if 1 \<le> parseInt ds \<and> parseInt ds - 1 < int (length chunks)
                            \<and> truthy (metadata_of (chunks ! nat (parseInt ds - 1)))
                         then badge (parseInt ds - 1)
                                (opt_prop (metadata_of (chunks ! nat (parseInt ds - 1))) (js ''title''))
                                (opt_prop (metadata_of (chunks ! nat (parseInt ds - 1))) (js ''url''))
                         else marker ds)
                      @ out'))"
      unfolding renderContent_fst by (simp only: option.map)
  qed
  from a b c d [of html] processedHtml_first [of pre ds badge chunks post out']
  show ?thesis by (intro conjI impI) blast+
qed

lemma example_free:
  "marker_free []" "marker_free (js ''<p>a'')" "marker_free (js ''b'')" "marker_free (js ''</p>'')"
  "marker_free (js ''<p>'')"
  "marker_free (js ''<p><a href='' @ [0x22] @ js ''u'' @ [0x22] @ js ''>S1</a></p>'')"
  by (simp_all add: marker_free_Nil marker_free_Cons match_marker_def js_def)

lemma example_digits:
  "js ''1'' \<noteq> [] \<and> list_all digit (js ''1'') \<and> parseInt (js ''1'') = 1"
  "js ''2'' \<noteq> [] \<and> list_all digit (js ''2'') \<and> parseInt (js ''2'') = 2"
  "js ''3'' \<noteq> [] \<and> list_all digit (js ''3'') \<and> parseInt (js ''3'') = 3"
  by (simp_all add: js_def digit_def parseInt_def)

lemma example_metadata:
  "metadata_of (two_chunks ! 0)
     = JObj [(js ''title'', JStr (js ''Paper'')), (js ''url'', JStr (js ''u1''))]"
  "metadata_of (two_chunks ! 1) = JUndefined"
  "length two_chunks = 2"
  "metadata_of (null_chunks ! 0) = JNull"
  "length null_chunks = 1"
  by (simp_all add: two_chunks_def null_chunks_def metadata_of_def opt_prop_def get_prop_def
      js_def)

lemma example_truthy:
  "truthy (JObj kvs)" "\<not> truthy JUndefined" "\<not> truthy JNull"
  by (simp_all add: truthy_def)

lemma example_fields:
  "opt_prop (JObj [(js ''title'', JStr (js ''Paper'')), (js ''url'', JStr (js ''u1''))]) (js ''url'')
     = JStr (js ''u1'')"
  by (simp add: opt_prop_def get_prop_def js_def)

lemma example_markdown:
  "markdown_examples (marker (js ''1'')) = js ''<p>'' @ marker (js ''1'') @ js ''</p>''"
  "markdown_examples (marker (js ''1'') @ js ''(u)'')
     = js ''<p><a href='' @ [0x22] @ js ''u'' @ [0x22] @ js ''>S1</a></p>''"
  "markdown_examples (js ''a'' @ marker (js ''1'') @ js ''b'' @ marker (js ''2'') @ marker (js ''3''))
     = js ''<p>a'' @ marker (js ''1'') @ js ''b'' @ marker (js ''2'') @ marker (js ''3'') @ js ''</p>''"
  by (simp_all add: markdown_examples_def marker_def js_def)

lemma null_first:
  "replace_markers (replacer plain_badge null_chunks) (js ''<p>'' @ marker (js ''1'') @ js ''</p>'')
     = Some (js ''<p>'' @ marker (js ''1'') @ js ''</p>'', [0])"
  unfolding replace_markers_first [OF example_free(5) example_digits(1) [THEN conjunct1]
      example_digits(1) [THEN conjunct2, THEN conjunct1]]
    replacer_eq replace_markers_free [OF example_free(4)]
  by (simp add: example_digits example_metadata example_truthy)

text \<open>
  C4 as stated fails twice.  A chunk in range has a \<open>content.metadata\<close> field whose
  value is \<open>null\<close>: the marker \<open>[S1]\<close> stays, since the source tests the value, not the
  field.  And in the content \<open>[S1](u)\<close> the marker is the text of a markdown link: the
  HTML holds no marker, so the output holds neither the marker verbatim nor a badge,
  although chunk 0 has metadata.
\<close>

theorem citation_counterexample:
  "has_metadata_field (null_chunks ! 0)
   \<and> parseInt (js ''1'') - 1 = 0 \<and> length null_chunks = 1
   \<and> renderContent markdown_examples keep_html plain_badge null_chunks (marker (js ''1''))
       = Some (js ''<p>'' @ marker (js ''1'') @ js ''</p>'', [0])
   \<and> truthy (metadata_of (two_chunks ! 0))
   \<and> renderContent markdown_examples keep_html plain_badge two_chunks
         (marker (js ''1'') @ js ''(u)'')
       = Some (js ''<p><a href='' @ [0x22] @ js ''u'' @ [0x22] @ js ''>S1</a></p>'', [])"
proof -
  have f: "has_metadata_field (null_chunks ! 0)"
    by (simp add: has_metadata_field_def null_chunks_def js_def)
  have a: "renderContent markdown_examples keep_html plain_badge null_chunks (marker (js ''1''))
       = Some (js ''<p>'' @ marker (js ''1'') @ js ''</p>'', [0])"
    by (simp add: renderContent_def processedHtml_def example_markdown null_first keep_html_def)
  have b: "renderContent markdown_examples keep_html plain_badge two_chunks
         (marker (js ''1'') @ js ''(u)'')
       = Some (js ''<p><a href='' @ [0x22] @ js ''u'' @ [0x22] @ js ''>S1</a></p>'', [])"
    using replace_markers_free [OF example_free(6), of "replacer plain_badge two_chunks"]
    by (simp add: renderContent_def processedHtml_def example_markdown(2) keep_html_def)
  from f a b show ?thesis
    by (simp add: example_digits example_metadata example_truthy)
qed

theorem citation_rendering_witness:
  "map_option fst (renderContent markdown_examples keep_html plain_badge two_chunks
       (js ''a'' @ marker (js ''1'') @ js ''b'' @ marker (js ''2'') @ marker (js ''3'')))
     = Some (js ''<p>a'' @ js ''<a href=u1>Source1</a>'' @ js ''b'' @ marker (js ''2'')
             @ marker (js ''3'') @ js ''</p>'')"
proof -
  note t = citation_rendering [of markdown_examples keep_html plain_badge two_chunks]
  have e: "map_option fst (processedHtml plain_badge two_chunks (js ''</p>'')) = Some (js ''</p>'')"
    using t [of _ _ _ _ _ "js ''</p>''"] example_free by simp
  have 3: "map_option fst (processedHtml plain_badge two_chunks (marker (js ''3'') @ js ''</p>''))
      = Some (marker (js ''3'') @ js ''</p>'')"
    using t [of _ "[]" "js ''3''" "js ''</p>''" "js ''</p>''"] example_free example_digits
      example_metadata e
    by simp
  have 2: "map_option fst (processedHtml plain_badge two_chunks
        (js ''b'' @ marker (js ''2'') @ marker (js ''3'') @ js ''</p>''))
      = Some (js ''b'' @ marker (js ''2'') @ marker (js ''3'') @ js ''</p>'')"
    using t [of _ "js ''b''" "js ''2''" "marker (js ''3'') @ js ''</p>''"
        "marker (js ''3'') @ js ''</p>''"]
      example_free example_digits example_metadata example_truthy 3
    by simp
  have b: "plain_badge 0 ti (JStr (js ''u1'')) = js ''<a href=u1>Source1</a>''" for ti
    by (simp add: plain_badge_def js_def)
  show ?thesis
    using t [of "js ''a'' @ marker (js ''1'') @ js ''b'' @ marker (js ''2'') @ marker (js ''3'')"
        "js ''<p>a''" "js ''1''" "js ''b'' @ marker (js ''2'') @ marker (js ''3'') @ js ''</p>''"
        "js ''b'' @ marker (js ''2'') @ marker (js ''3'') @ js ''</p>''"]
      example_free example_digits example_metadata example_truthy example_fields
      example_markdown 2 b
    by (simp add: keep_html_def)
qed

end
